theory Spec2Isabelle
  imports Complex_Main
begin

section \<open>Data model\<close>

text \<open>
  JavaScript numbers are modelled as real numbers: rounding, infinities and NaN of IEEE
  doubles are outside the model, except where a function visibly produces NaN from an
  absent field (then the model has a branch of its own for it). A \<open>Date\<close> is modelled
  by its \<open>getTime()\<close> value, an integer number of milliseconds. An absent, \<open>null\<close>
  or \<open>undefined\<close> value is \<open>None\<close>.
\<close>

type_synonym timestamp = int

record bar =
  date :: timestamp
  open_price :: real
  high :: real
  low :: real
  close_price :: real
  volume :: real

text \<open>
  A pivot object is \<open>{date, high}\<close> or \<open>{date, low}\<close>: the field that the object
  does not have is \<open>None\<close>.
\<close>

record pivot =
  pivot_date :: timestamp
  pivot_high :: "real option"
  pivot_low :: "real option"

record trade_signal =
  triggerDate :: timestamp
  entryDate :: "timestamp option"
  entryPrice :: real
  projectedExit :: "real option"
  exitPivot :: "pivot option"

record signal_data =
  startPointName :: string
  startDateUTC :: timestamp
  lookbackPeriod :: nat
  lookbackEndDate :: timestamp
  pivotHigh :: "pivot option"
  pivotLow :: "pivot option"
  longSignal :: "trade_signal option"
  shortSignal :: "trade_signal option"

text \<open>
  The object \<open>{...signalData, tradeSignal, isLong}\<close> built by
  \<open>groupSignalsByEntryBar\<close>: the spread record is kept whole in the field
  \<open>signalData\<close>.
\<close>

record potential_trade =
  signalData :: signal_data
  tradeSignal :: trade_signal
  isLong :: bool

record original_signal =
  os_type :: string
  os_entryDate :: timestamp
  os_entryPrice :: real
  os_ingressDate :: timestamp
  os_lookbackEndDate :: timestamp
  os_lookbackPeriod :: nat
  os_entryPivotHigh :: "pivot option"
  os_entryPivotLow :: "pivot option"
  os_exitPivot :: "pivot option"
  os_projectedExit :: real

record position =
  pos_entryDate :: timestamp
  pos_entryPrice :: real
  pos_isLong :: bool
  pos_stopLoss :: real
  pos_takeProfit :: real
  pos_capitalAllocated :: real
  pos_startPointName :: string
  pos_originalSignal :: original_signal

record trade_result =
  exitPrice :: real
  exitReason :: string

text \<open>
  A record of the trade log:
  \<open>{...originalSignal, ...tradeResult, exitDate, profit, profitPct}\<close>.
\<close>

record trade_record =
  tr_signal :: original_signal
  tr_exitPrice :: real
  tr_exitReason :: string
  tr_exitDate :: timestamp
  profit :: real
  profitPct :: real

record config =
  initialCapital :: real
  preventOnLosses :: bool
  liquidateGroupOnLoss :: bool
  allowSingleTradePerBar :: bool
  positionSize :: real

text \<open>The mutable variables of \<open>runBacktest\<close>.\<close>

record state =
  tradeLog :: "trade_record list"
  currentCapital :: real
  consecutiveLosses :: nat
  isObserving :: bool
  openPositions :: "position list"

record summary =
  totalTrades :: nat
  winningTrades :: nat
  losingTrades :: nat
  winRate :: real
  totalProfit :: real
  sum_initialCapital :: real
  finalCapital :: real
  cagr :: real

section \<open>JavaScript helpers\<close>

text \<open>
  Truthiness of a number that may be absent: \<open>undefined\<close>, \<open>null\<close> and \<open>0\<close> are
  falsy.
\<close>

definition truthy :: "real option \<Rightarrow> bool" where
  "truthy x = (case x of None \<Rightarrow> False | Some v \<Rightarrow> v \<noteq> 0)"

text \<open>\<open>Array.prototype.findIndex\<close>: the first index that satisfies the predicate.\<close>

fun findIndex :: "('a \<Rightarrow> bool) \<Rightarrow> 'a list \<Rightarrow> nat option" where
  "findIndex P [] = None"
| "findIndex P (x # xs) =
     (if P x then Some 0
      else (case findIndex P xs of None \<Rightarrow> None | Some i \<Rightarrow> Some (Suc i)))"

section \<open>The simulator: \<open>utils/algoCore/backtester.js\<close>\<close>

subsection \<open>\<open>getGhostTradeOutcome\<close>\<close>

datatype outcome = Win | Loss

text \<open>\<open>isLong ? pivotLow?.low : pivotHigh?.high\<close>\<close>

definition stopLoss_of :: "potential_trade \<Rightarrow> real option" where
  "stopLoss_of t =
     (if isLong t then Option.bind (pivotLow (signalData t)) pivot_low
      else Option.bind (pivotHigh (signalData t)) pivot_high)"

text \<open>The loop over \<open>tradeWindow\<close>: the exit price of the first bar that touches a level.\<close>

fun ghost_scan :: "bool \<Rightarrow> real \<Rightarrow> real \<Rightarrow> bar list \<Rightarrow> real option" where
  "ghost_scan lng sl pe [] = None"
| "ghost_scan lng sl pe (b # bs) =
     (if lng then
        (if low b \<le> sl then Some sl
         else if high b \<ge> pe then Some pe
         else ghost_scan lng sl pe bs)
      else
        (if high b \<ge> sl then Some sl
         else if low b \<le> pe then Some pe
         else ghost_scan lng sl pe bs))"

definition getGhostTradeOutcome :: "potential_trade \<Rightarrow> bar list \<Rightarrow> outcome option" where
  "getGhostTradeOutcome t historicalData =
     (let stopLoss = stopLoss_of t;
          pe = projectedExit (tradeSignal t)
      in if \<not> truthy stopLoss \<or> \<not> truthy pe then None
         else
           (case findIndex (\<lambda>d. Some (date d) = entryDate (tradeSignal t)) historicalData of
              None \<Rightarrow> None
            | Some startIndex \<Rightarrow>
                (case ghost_scan (isLong t) (the stopLoss) (the pe)
                        (drop startIndex historicalData) of
                   None \<Rightarrow> None
                 | Some exitP \<Rightarrow>
                     (let p = (if isLong t then exitP - entryPrice (tradeSignal t)
                               else entryPrice (tradeSignal t) - exitP)
                      in if p > 0 then Some Win else Some Loss))))"

subsection \<open>\<open>groupSignalsByEntryBar\<close>\<close>

text \<open>The callback of \<open>signals.map\<close>: the long signal is looked at first.\<close>

definition toPotentialTrade :: "signal_data \<Rightarrow> potential_trade option" where
  "toPotentialTrade sd =
     (case longSignal sd of
        Some l \<Rightarrow> Some \<lparr>signalData = sd, tradeSignal = l, isLong = True\<rparr>
      | None \<Rightarrow>
          (case shortSignal sd of
             Some sh \<Rightarrow> Some \<lparr>signalData = sd, tradeSignal = sh, isLong = False\<rparr>
           | None \<Rightarrow> None))"

text \<open>The callback of \<open>filter\<close>: \<open>trade && trade.tradeSignal.entryDate\<close>.\<close>

definition keepTrade :: "potential_trade option \<Rightarrow> bool" where
  "keepTrade t = (case t of None \<Rightarrow> False | Some tr \<Rightarrow> entryDate (tradeSignal tr) \<noteq> None)"

definition entryTimestamp :: "potential_trade \<Rightarrow> timestamp" where
  "entryTimestamp t = (case entryDate (tradeSignal t) of Some d \<Rightarrow> d | None \<Rightarrow> 0)"

text \<open>
  \<open>map\<close>, \<open>filter\<close> and the (stable) \<open>sort\<close> by entry date. Every trade that
  passes the filter has an entry date, so the default of \<open>entryTimestamp\<close> is never
  used as a key.
\<close>

definition allPotentialTrades :: "signal_data list \<Rightarrow> potential_trade list" where
  "allPotentialTrades signals =
     sort_key entryTimestamp (map the (filter keepTrade (map toPotentialTrade signals)))"

text \<open>The loop that pushes each trade on the array stored under its timestamp.\<close>

fun group_trades ::
  "potential_trade list \<Rightarrow> (timestamp \<rightharpoonup> potential_trade list) \<Rightarrow>
   (timestamp \<rightharpoonup> potential_trade list)" where
  "group_trades [] m = m"
| "group_trades (t # ts) m =
     group_trades ts
       (m(entryTimestamp t \<mapsto>
            (case m (entryTimestamp t) of None \<Rightarrow> [] | Some l \<Rightarrow> l) @ [t]))"

definition groupSignalsByEntryBar ::
  "signal_data list \<Rightarrow> (timestamp \<rightharpoonup> potential_trade list)" where
  "groupSignalsByEntryBar signals = group_trades (allPotentialTrades signals) Map.empty"

subsection \<open>\<open>runBacktest\<close>: closing open positions\<close>

text \<open>
  \<open>MAX_OPEN_POSITIONS = Math.floor(1 / POSITION_SIZE)\<close>. A position size of \<open>0\<close>
  gives \<open>Infinity\<close> in JavaScript, which no array length reaches.
\<close>

datatype limit = Finite int | Infinity

definition MAX_OPEN_POSITIONS :: "config \<Rightarrow> limit" where
  "MAX_OPEN_POSITIONS cfg =
     (if positionSize cfg = 0 then Infinity else Finite \<lfloor>1 / positionSize cfg\<rfloor>)"

text \<open>\<open>openPositions.length >= MAX_OPEN_POSITIONS\<close>\<close>

definition at_cap :: "limit \<Rightarrow> position list \<Rightarrow> bool" where
  "at_cap m ps = (case m of Infinity \<Rightarrow> False | Finite k \<Rightarrow> int (length ps) \<ge> k)"

text \<open>The first loop over the open positions fills the map \<open>originsToLiquidate\<close>.\<close>

fun mark_origins :: "bar \<Rightarrow> position list \<Rightarrow> (string \<rightharpoonup> real) \<Rightarrow> (string \<rightharpoonup> real)" where
  "mark_origins b [] m = m"
| "mark_origins b (p # ps) m =
     (if m (pos_startPointName p) \<noteq> None then mark_origins b ps m
      else if pos_isLong p \<and> low b \<le> pos_stopLoss p
        then mark_origins b ps (m(pos_startPointName p \<mapsto> pos_stopLoss p))
      else if \<not> pos_isLong p \<and> high b \<ge> pos_stopLoss p
        then mark_origins b ps (m(pos_startPointName p \<mapsto> pos_stopLoss p))
      else mark_origins b ps m)"

text \<open>The exit of one open position on a bar, if any (\<open>tradeResult\<close>).\<close>

definition exit_result :: "bar \<Rightarrow> (string \<rightharpoonup> real) \<Rightarrow> position \<Rightarrow> trade_result option" where
  "exit_result b origins p =
     (let liquidationPrice = origins (pos_startPointName p)
      in if truthy liquidationPrice then
           Some \<lparr>exitPrice = the liquidationPrice, exitReason = ''Group Liquidation''\<rparr>
         else if pos_isLong p then
           (if low b \<le> pos_stopLoss p then
              Some \<lparr>exitPrice = pos_stopLoss p, exitReason = ''Stop Loss Hit''\<rparr>
            else if high b \<ge> pos_takeProfit p then
              Some \<lparr>exitPrice = pos_takeProfit p, exitReason = ''Take Profit Hit''\<rparr>
            else None)
         else
           (if high b \<ge> pos_stopLoss p then
              Some \<lparr>exitPrice = pos_stopLoss p, exitReason = ''Stop Loss Hit''\<rparr>
            else if low b \<le> pos_takeProfit p then
              Some \<lparr>exitPrice = pos_takeProfit p, exitReason = ''Take Profit Hit''\<rparr>
            else None))"

text \<open>
  The update of the loss streak, which the source writes out twice with the same text
  (for an ordinary or group exit, and for a same-bar exit).
\<close>

definition update_streak :: "config \<Rightarrow> real \<Rightarrow> state \<Rightarrow> state" where
  "update_streak cfg p s =
     (let s1 = (if p < 0 then s\<lparr>consecutiveLosses := consecutiveLosses s + 1\<rparr>
                else s\<lparr>consecutiveLosses := 0\<rparr>)
      in if preventOnLosses cfg \<and> consecutiveLosses s1 \<ge> 2
         then s1\<lparr>isObserving := True\<rparr> else s1)"

definition position_profit :: "position \<Rightarrow> real \<Rightarrow> real" where
  "position_profit p exitP =
     (let shares = pos_capitalAllocated p / pos_entryPrice p
      in if pos_isLong p then (exitP - pos_entryPrice p) * shares
         else (pos_entryPrice p - exitP) * shares)"

text \<open>The branch \<open>if (tradeResult)\<close> of the closing loop.\<close>

definition realize_exit :: "config \<Rightarrow> bar \<Rightarrow> position \<Rightarrow> trade_result \<Rightarrow> state \<Rightarrow> state" where
  "realize_exit cfg b p r s =
     (let pr = position_profit p (exitPrice r);
          s1 = s\<lparr>currentCapital := currentCapital s + pr\<rparr>;
          s2 = update_streak cfg pr s1
      in s2\<lparr>tradeLog := tradeLog s2 @
              [\<lparr>tr_signal = pos_originalSignal p, tr_exitPrice = exitPrice r,
                tr_exitReason = exitReason r, tr_exitDate = date b,
                profit = pr, profitPct = pr / pos_capitalAllocated p * 100\<rparr>]\<rparr>)"

text \<open>The second loop over the open positions, with \<open>remainingPositions\<close>.\<close>

fun close_each ::
  "config \<Rightarrow> bar \<Rightarrow> (string \<rightharpoonup> real) \<Rightarrow> position list \<Rightarrow> state \<Rightarrow> position list \<Rightarrow>
   state \<times> position list" where
  "close_each cfg b origins [] s remaining = (s, remaining)"
| "close_each cfg b origins (p # ps) s remaining =
     (case exit_result b origins p of
        Some r \<Rightarrow> close_each cfg b origins ps (realize_exit cfg b p r s) remaining
      | None \<Rightarrow> close_each cfg b origins ps s (remaining @ [p]))"

definition close_positions :: "config \<Rightarrow> bar \<Rightarrow> state \<Rightarrow> state" where
  "close_positions cfg b s =
     (let origins = (if liquidateGroupOnLoss cfg
                     then mark_origins b (openPositions s) Map.empty else Map.empty);
          (s1, remaining) = close_each cfg b origins (openPositions s) s []
      in s1\<lparr>openPositions := remaining\<rparr>)"

subsection \<open>\<open>runBacktest\<close>: entering new positions\<close>

definition newPosition :: "potential_trade \<Rightarrow> real \<Rightarrow> real \<Rightarrow> real \<Rightarrow> position" where
  "newPosition t stopLoss pe capitalForThisTrade =
     \<lparr>pos_entryDate = entryTimestamp t,
      pos_entryPrice = entryPrice (tradeSignal t),
      pos_isLong = isLong t,
      pos_stopLoss = stopLoss,
      pos_takeProfit = pe,
      pos_capitalAllocated = capitalForThisTrade,
      pos_startPointName = startPointName (signalData t),
      pos_originalSignal =
        \<lparr>os_type = (if isLong t then ''Long'' else ''Short''),
         os_entryDate = entryTimestamp t,
         os_entryPrice = entryPrice (tradeSignal t),
         os_ingressDate = startDateUTC (signalData t),
         os_lookbackEndDate = lookbackEndDate (signalData t),
         os_lookbackPeriod = lookbackPeriod (signalData t),
         os_entryPivotHigh = pivotHigh (signalData t),
         os_entryPivotLow = pivotLow (signalData t),
         os_exitPivot = exitPivot (tradeSignal t),
         os_projectedExit = pe\<rparr>\<rparr>"

text \<open>The check of the entry bar's own high and low (\<open>sameDayResult\<close>).\<close>

definition sameDayResult :: "bool \<Rightarrow> bar \<Rightarrow> real \<Rightarrow> real \<Rightarrow> trade_result option" where
  "sameDayResult lng b stopLoss pe =
     (if lng then
        (if low b \<le> stopLoss then
           Some \<lparr>exitPrice = stopLoss, exitReason = ''Stop Loss Hit (Same Day)''\<rparr>
         else if high b \<ge> pe then
           Some \<lparr>exitPrice = pe, exitReason = ''Take Profit Hit (Same Day)''\<rparr>
         else None)
      else
        (if high b \<ge> stopLoss then
           Some \<lparr>exitPrice = stopLoss, exitReason = ''Stop Loss Hit (Same Day)''\<rparr>
         else if low b \<le> pe then
           Some \<lparr>exitPrice = pe, exitReason = ''Take Profit Hit (Same Day)''\<rparr>
         else None))"

text \<open>
  The body of the loop over \<open>signalsToProcess\<close>, after the check of the cap. The
  same-bar branch computes \<open>shares\<close>, \<open>profit\<close>, \<open>profitPct\<close> and the log record
  from \<open>capitalForThisTrade\<close>, \<open>tradeSignal.entryPrice\<close> and \<open>isLong\<close>, which are
  the fields of \<open>newPosition\<close>: it is \<open>realize_exit\<close> at the new position.
\<close>

definition enter_candidate ::
  "config \<Rightarrow> bar list \<Rightarrow> bar \<Rightarrow> potential_trade \<Rightarrow> state \<Rightarrow> state" where
  "enter_candidate cfg historicalData b t s =
     (if preventOnLosses cfg \<and> isObserving s then
        (if getGhostTradeOutcome t historicalData = Some Win
         then s\<lparr>isObserving := False, consecutiveLosses := 0\<rparr>
         else s)
      else
        (let stopLoss = stopLoss_of t;
             pe = projectedExit (tradeSignal t)
         in if \<not> truthy stopLoss \<or> \<not> truthy pe then s
            else
              (let capitalForThisTrade = currentCapital s * positionSize cfg;
                   np = newPosition t (the stopLoss) (the pe) capitalForThisTrade
               in case sameDayResult (isLong t) b (the stopLoss) (the pe) of
                    Some r \<Rightarrow> realize_exit cfg b np r s
                  | None \<Rightarrow> s\<lparr>openPositions := openPositions s @ [np]\<rparr>)))"

text \<open>The loop over \<open>signalsToProcess\<close>; the \<open>break\<close> at the cap ends it.\<close>

fun enter_positions ::
  "config \<Rightarrow> bar list \<Rightarrow> bar \<Rightarrow> potential_trade list \<Rightarrow> state \<Rightarrow> state" where
  "enter_positions cfg historicalData b [] s = s"
| "enter_positions cfg historicalData b (t # ts) s =
     (if at_cap (MAX_OPEN_POSITIONS cfg) (openPositions s) then s
      else enter_positions cfg historicalData b ts (enter_candidate cfg historicalData b t s))"

definition signalsToProcess ::
  "config \<Rightarrow> (timestamp \<rightharpoonup> potential_trade list) \<Rightarrow> bar \<Rightarrow> potential_trade list" where
  "signalsToProcess cfg signalsByEntryBar b =
     (let signalsForThisBar = (case signalsByEntryBar (date b) of None \<Rightarrow> [] | Some l \<Rightarrow> l)
      in if allowSingleTradePerBar cfg \<and> length signalsForThisBar > 0
         then take 1 signalsForThisBar else signalsForThisBar)"

subsection \<open>\<open>runBacktest\<close>: the loop over the bars and the end of the test\<close>

definition process_bar ::
  "config \<Rightarrow> bar list \<Rightarrow> (timestamp \<rightharpoonup> potential_trade list) \<Rightarrow> state \<Rightarrow> bar \<Rightarrow> state" where
  "process_bar cfg historicalData signalsByEntryBar s b =
     enter_positions cfg historicalData b (signalsToProcess cfg signalsByEntryBar b)
       (close_positions cfg b s)"

definition initial_state :: "config \<Rightarrow> state" where
  "initial_state cfg =
     \<lparr>tradeLog = [], currentCapital = initialCapital cfg, consecutiveLosses = 0,
      isObserving = False, openPositions = []\<rparr>"

text \<open>The state after the loop over a list of bars, started from the initial state.\<close>

definition run_bars :: "config \<Rightarrow> signal_data list \<Rightarrow> bar list \<Rightarrow> bar list \<Rightarrow> state" where
  "run_bars cfg signals historicalData bs =
     foldl (process_bar cfg historicalData (groupSignalsByEntryBar signals))
       (initial_state cfg) bs"

text \<open>The loop that closes the positions still open at the close of the last bar.\<close>

fun close_at_end :: "bar \<Rightarrow> position list \<Rightarrow> state \<Rightarrow> state" where
  "close_at_end lastDay [] s = s"
| "close_at_end lastDay (p # ps) s =
     (let pr = position_profit p (close_price lastDay)
      in close_at_end lastDay ps
           (s\<lparr>currentCapital := currentCapital s + pr,
              tradeLog := tradeLog s @
                [\<lparr>tr_signal = pos_originalSignal p, tr_exitPrice = close_price lastDay,
                  tr_exitReason = ''End of Test'', tr_exitDate = date lastDay,
                  profit = pr, profitPct = pr / pos_capitalAllocated p * 100\<rparr>]\<rparr>))"

text \<open>
  \<open>lastDay\<close> is \<open>undefined\<close> when there is no bar, and reading \<open>lastDay.close\<close> in the
  loop then throws a TypeError: the result \<open>None\<close>.
\<close>

definition end_of_test :: "bar list \<Rightarrow> state \<Rightarrow> state option" where
  "end_of_test historicalData s =
     (if openPositions s = [] then Some s
      else if historicalData = [] then None
      else Some (close_at_end (last historicalData) (openPositions s) s))"

text \<open>
  The summary. \<open>Math.pow\<close> is the real power \<open>powr\<close>, which is meant for a positive
  base only.
\<close>

definition summarize :: "config \<Rightarrow> trade_record list \<Rightarrow> real \<Rightarrow> summary" where
  "summarize cfg lg capital =
     (let total = length lg;
          winning = length (filter (\<lambda>t. profit t > 0) lg);
          years = (if total > 0
                   then real_of_int (tr_exitDate (last lg) - os_entryDate (tr_signal (hd lg)))
                        / (1000 * 60 * 60 * 24 * 365.25)
                   else 0)
      in \<lparr>totalTrades = total,
          winningTrades = winning,
          losingTrades = total - winning,
          winRate = (if total > 0 then real winning / real total * 100 else 0),
          totalProfit = capital - initialCapital cfg,
          sum_initialCapital = initialCapital cfg,
          finalCapital = capital,
          cagr = (if total > 0 \<and> years > 0
                  then ((capital / initialCapital cfg) powr (1 / years) - 1) * 100
                  else 0)\<rparr>)"

definition runBacktest ::
  "signal_data list \<Rightarrow> bar list \<Rightarrow> config \<Rightarrow> (trade_record list \<times> summary) option" where
  "runBacktest signals historicalData cfg =
     (case end_of_test historicalData (run_bars cfg signals historicalData historicalData) of
        None \<Rightarrow> None
      | Some s \<Rightarrow>
          (let lg = sort_key (\<lambda>t. os_entryDate (tr_signal t)) (tradeLog s)
           in Some (lg, summarize cfg lg (currentCapital s))))"

section \<open>The exit projection: \<open>utils/algoCore/exitPriceCalculator.js\<close>\<close>

datatype signal_type = LONG | SHORT

text \<open>
  The value returned by \<open>calculateProjectedExit\<close>: \<open>null\<close>, a price, or the NaN that
  the arithmetic gives when the pivot object lacks the field that is read.
\<close>

datatype projection = Null | NaN | Price real

text \<open>
  The parameters that the caller may leave out are options; \<open>scalingFactor\<close> has the
  default \<open>1\<close>. \<open>!triggerPrice\<close> is true of an absent price and of the price \<open>0\<close>.
\<close>

definition calculateProjectedExit ::
  "signal_type option \<Rightarrow> real option \<Rightarrow> pivot option \<Rightarrow> real option \<Rightarrow> real option \<Rightarrow>
   projection" where
  "calculateProjectedExit signalType triggerPrice pv timeDifference scalingFactorArg =
     (let scalingFactor = (case scalingFactorArg of None \<Rightarrow> 1 | Some f \<Rightarrow> f)
      in if signalType = None \<or> \<not> truthy triggerPrice \<or> pv = None \<or>
            timeDifference = None \<or> scalingFactor \<le> 0
         then Null
         else
           (case (if signalType = Some LONG then pivot_low (the pv) else pivot_high (the pv)) of
              None \<Rightarrow> NaN
            | Some pivotPrice \<Rightarrow>
                (let deltaP_dollars = \<bar>the triggerPrice - pivotPrice\<bar>;
                     deltaP_scaled = deltaP_dollars / scalingFactor;
                     radius_scaled = sqrt ((the timeDifference)\<^sup>2 + deltaP_scaled\<^sup>2);
                     radius_dollars = radius_scaled * scalingFactor
                 in if signalType = Some LONG
                    then Price (the triggerPrice + radius_dollars)
                    else Price (the triggerPrice - radius_dollars))))"

section \<open>Pivots: \<open>utils/algoCore/pivotFinders.js\<close>\<close>

subsection \<open>\<open>findInitialPivots\<close>\<close>

definition highPivotAt :: "bar \<Rightarrow> pivot" where
  "highPivotAt b = \<lparr>pivot_date = date b, pivot_high = Some (high b), pivot_low = None\<rparr>"

definition lowPivotAt :: "bar \<Rightarrow> pivot" where
  "lowPivotAt b = \<lparr>pivot_date = date b, pivot_high = None, pivot_low = Some (low b)\<rparr>"

text \<open>
  The loop for the 5-bar fractals, over the indices \<open>length - 3\<close> down to \<open>2\<close>; it
  stops as soon as both pivots are found.
\<close>

fun scan5 ::
  "bar list \<Rightarrow> nat list \<Rightarrow> pivot option \<Rightarrow> pivot option \<Rightarrow> pivot option \<times> pivot option" where
  "scan5 bars [] ph pl = (ph, pl)"
| "scan5 bars (i # is) ph pl =
     (let middle = bars ! i;
          ph' = (if ph = None \<and>
                    high middle > high (bars ! (i - 1)) \<and> high middle > high (bars ! (i - 2)) \<and>
                    high middle > high (bars ! (i + 1)) \<and> high middle > high (bars ! (i + 2))
                 then Some (highPivotAt middle) else ph);
          pl' = (if pl = None \<and>
                    low middle < low (bars ! (i - 1)) \<and> low middle < low (bars ! (i - 2)) \<and>
                    low middle < low (bars ! (i + 1)) \<and> low middle < low (bars ! (i + 2))
                 then Some (lowPivotAt middle) else pl)
      in if ph' \<noteq> None \<and> pl' \<noteq> None then (ph', pl') else scan5 bars is ph' pl')"

text \<open>
  The loop for the 3-bar fractals, over the indices \<open>length - 2\<close> down to \<open>1\<close>; a side
  that already has its 5-bar pivot is not searched.
\<close>

fun scan3 ::
  "bar list \<Rightarrow> nat list \<Rightarrow> pivot option \<Rightarrow> pivot option \<Rightarrow> pivot option \<Rightarrow> pivot option \<Rightarrow>
   pivot option \<times> pivot option" where
  "scan3 bars [] ph5 pl5 ph3 pl3 = (ph3, pl3)"
| "scan3 bars (i # is) ph5 pl5 ph3 pl3 =
     (let middle = bars ! i;
          ph3' = (if ph5 = None \<and> ph3 = None \<and>
                     high middle > high (bars ! (i - 1)) \<and> high middle > high (bars ! (i + 1))
                  then Some (highPivotAt middle) else ph3);
          pl3' = (if pl5 = None \<and> pl3 = None \<and>
                     low middle < low (bars ! (i - 1)) \<and> low middle < low (bars ! (i + 1))
                  then Some (lowPivotAt middle) else pl3)
      in if (ph5 \<noteq> None \<or> ph3' \<noteq> None) \<and> (pl5 \<noteq> None \<or> pl3' \<noteq> None) then (ph3', pl3')
         else scan3 bars is ph5 pl5 ph3' pl3')"

text \<open>\<open>a || b\<close> on objects.\<close>

definition orElse :: "'a option \<Rightarrow> 'a option \<Rightarrow> 'a option" where
  "orElse a b = (case a of Some x \<Rightarrow> Some x | None \<Rightarrow> b)"

text \<open>\<open>initialPivotHigh\<close> and \<open>initialPivotLow\<close>, for a window of at least 3 bars.\<close>

definition initialPivots :: "bar list \<Rightarrow> pivot option \<times> pivot option" where
  "initialPivots bars =
     (let (pivotHigh5Bar, pivotLow5Bar) =
            (if length bars \<ge> 5 then scan5 bars (rev [2 ..< length bars - 2]) None None
             else (None, None));
          (pivotHigh3Bar, pivotLow3Bar) =
            scan3 bars (rev [1 ..< length bars - 1]) pivotHigh5Bar pivotLow5Bar None None
      in (orElse pivotHigh5Bar pivotHigh3Bar, orElse pivotLow5Bar pivotLow3Bar))"

text \<open>The two loops over \<open>correctionWindow\<close>.\<close>

fun correctHighLoop :: "bar list \<Rightarrow> real \<Rightarrow> bar \<Rightarrow> real \<times> bar" where
  "correctHighLoop [] maxHighInWindow correctedHighBar = (maxHighInWindow, correctedHighBar)"
| "correctHighLoop (b # bs) maxHighInWindow correctedHighBar =
     (if high b > maxHighInWindow then correctHighLoop bs (high b) b
      else correctHighLoop bs maxHighInWindow correctedHighBar)"

fun correctLowLoop :: "bar list \<Rightarrow> real \<Rightarrow> bar \<Rightarrow> real \<times> bar" where
  "correctLowLoop [] minLowInWindow correctedLowBar = (minLowInWindow, correctedLowBar)"
| "correctLowLoop (b # bs) minLowInWindow correctedLowBar =
     (if low b < minLowInWindow then correctLowLoop bs (low b) b
      else correctLowLoop bs minLowInWindow correctedLowBar)"

text \<open>
  The correction of a pivot. A pivot without its price (which \<open>initialPivots\<close> never
  builds) makes every comparison of the loop false.
\<close>

definition correctHigh :: "bar list \<Rightarrow> pivot \<Rightarrow> pivot" where
  "correctHigh bars initialPivotHigh =
     (case findIndex (\<lambda>d. date d = pivot_date initialPivotHigh) bars of
        None \<Rightarrow> initialPivotHigh
      | Some startIndex \<Rightarrow>
          (case pivot_high initialPivotHigh of
             None \<Rightarrow> \<lparr>pivot_date = date (bars ! startIndex), pivot_high = None, pivot_low = None\<rparr>
           | Some h \<Rightarrow>
               (let (maxHighInWindow, correctedHighBar) =
                      correctHighLoop (drop startIndex bars) h (bars ! startIndex)
                in \<lparr>pivot_date = date correctedHighBar, pivot_high = Some maxHighInWindow,
                    pivot_low = None\<rparr>)))"

definition correctLow :: "bar list \<Rightarrow> pivot \<Rightarrow> pivot" where
  "correctLow bars initialPivotLow =
     (case findIndex (\<lambda>d. date d = pivot_date initialPivotLow) bars of
        None \<Rightarrow> initialPivotLow
      | Some startIndex \<Rightarrow>
          (case pivot_low initialPivotLow of
             None \<Rightarrow> \<lparr>pivot_date = date (bars ! startIndex), pivot_high = None, pivot_low = None\<rparr>
           | Some l \<Rightarrow>
               (let (minLowInWindow, correctedLowBar) =
                      correctLowLoop (drop startIndex bars) l (bars ! startIndex)
                in \<lparr>pivot_date = date correctedLowBar, pivot_high = None,
                    pivot_low = Some minLowInWindow\<rparr>)))"

text \<open>The result \<open>{pivotHigh, pivotLow}\<close> is the pair of the two.\<close>

definition findInitialPivots :: "bar list \<Rightarrow> pivot option \<times> pivot option" where
  "findInitialPivots bars =
     (if length bars < 3 then (None, None)
      else (let (initialPivotHigh, initialPivotLow) = initialPivots bars
            in (map_option (correctHigh bars) initialPivotHigh,
                map_option (correctLow bars) initialPivotLow)))"

subsection \<open>\<open>findExitProjectionPivot\<close>\<close>

fun exitScan :: "bar list \<Rightarrow> signal_type \<Rightarrow> nat list \<Rightarrow> pivot option" where
  "exitScan historicalBars signalType [] = None"
| "exitScan historicalBars signalType (i # is) =
     (let middle = historicalBars ! i;
          prev = historicalBars ! (i - 1);
          next = historicalBars ! (i + 1)
      in if signalType = LONG then
           (if low middle < low prev \<and> low middle < low next then Some (lowPivotAt middle)
            else exitScan historicalBars signalType is)
         else
           (if high middle > high prev \<and> high middle > high next then Some (highPivotAt middle)
            else exitScan historicalBars signalType is))"

definition findExitProjectionPivot :: "bar list \<Rightarrow> signal_type \<Rightarrow> pivot option" where
  "findExitProjectionPivot historicalBars signalType =
     (if length historicalBars < 3 then None
      else exitScan historicalBars signalType (rev [1 ..< length historicalBars - 1]))"

subsection \<open>\<open>calculateTrendStructureRatio\<close>\<close>

record trend_pivot =
  tp_index :: nat
  tp_price :: real
  tp_type :: string

text \<open>
  The loop that collects the pivots: after a pivot at \<open>i\<close> the index is advanced by
  \<open>pivotLookaround\<close> before the increment of the loop.
\<close>

function trendPivots :: "bar list \<Rightarrow> nat \<Rightarrow> nat \<Rightarrow> trend_pivot list" where
  "trendPivots bars pivotLookaround i =
     (if i + pivotLookaround < length bars then
        (let window = take (2 * pivotLookaround + 1) (drop (i - pivotLookaround) bars);
             currentBar = bars ! i;
             maxHigh = Max (set (map high window));
             minLow = Min (set (map low window))
         in if high currentBar = maxHigh then
              \<lparr>tp_index = i, tp_price = high currentBar, tp_type = ''High''\<rparr>
                # trendPivots bars pivotLookaround (i + pivotLookaround + 1)
            else if low currentBar = minLow then
              \<lparr>tp_index = i, tp_price = low currentBar, tp_type = ''Low''\<rparr>
                # trendPivots bars pivotLookaround (i + pivotLookaround + 1)
            else trendPivots bars pivotLookaround (i + 1))
      else [])"
  by pat_completeness auto
termination
  by (relation "measure (\<lambda>(bars, pivotLookaround, i). length bars - i)") auto

declare trendPivots.simps [simp del]

text \<open>\<open>xs.slice(-n)\<close>: the last \<open>n\<close> elements, and the whole array for \<open>n = 0\<close>.\<close>

definition sliceLast :: "nat \<Rightarrow> 'a list \<Rightarrow> 'a list" where
  "sliceLast n xs = (if n = 0 then xs else drop (length xs - n) xs)"

fun slopesOf :: "trend_pivot list \<Rightarrow> real list" where
  "slopesOf (p1 # p2 # ps) =
     (if tp_index p2 > tp_index p1
      then [\<bar>tp_price p2 - tp_price p1\<bar> / real (tp_index p2 - tp_index p1)] else [])
     @ slopesOf (p2 # ps)"
| "slopesOf ps = []"

definition calculateTrendStructureRatio :: "bar list \<Rightarrow> nat \<Rightarrow> nat \<Rightarrow> real option" where
  "calculateTrendStructureRatio bars numPivots pivotLookaround =
     (if length bars < pivotLookaround * 2 + 1 then None
      else
        (let pivots = trendPivots bars pivotLookaround pivotLookaround
         in if length pivots < 2 then None
            else
              (let slopes = slopesOf (sliceLast numPivots pivots)
               in if length slopes = 0 then None
                  else Some (sum_list slopes / real (length slopes)))))"

section \<open>Indicators: \<open>utils/algoCore/technicalIndicators.js\<close>\<close>

definition trueRanges :: "bar list \<Rightarrow> real list" where
  "trueRanges bars =
     map (\<lambda>i. let currentBar = bars ! i; prevBar = bars ! (i - 1)
              in max (high currentBar - low currentBar)
                   (max \<bar>high currentBar - close_price prevBar\<bar>
                        \<bar>low currentBar - close_price prevBar\<bar>))
         [1 ..< length bars]"

definition calculateATR :: "bar list \<Rightarrow> nat \<Rightarrow> real option" where
  "calculateATR bars period =
     (if length bars < period + 1 then None
      else
        (let relevantTRs = sliceLast period (trueRanges bars)
         in if length relevantTRs < period then None
            else Some (sum_list relevantTRs / real period)))"

section \<open>The signal scan: \<open>utils/algoCore/tradeSignalLogic.js\<close>\<close>

text \<open>
  The signal object built at a trigger bar; its \<open>reason\<close> text is not modelled. The
  fields \<open>projectedExit\<close> and \<open>exitPivot\<close> are absent until the assembler sets them.
\<close>

definition signalAt :: "bar \<Rightarrow> bar \<Rightarrow> trade_signal" where
  "signalAt triggerBar entryBar =
     \<lparr>triggerDate = date triggerBar, entryDate = Some (date entryBar),
      entryPrice = open_price entryBar, projectedExit = None, exitPivot = None\<rparr>"

definition closedAbove :: "bar \<Rightarrow> pivot option \<Rightarrow> bool" where
  "closedAbove triggerBar fractalHigh =
     (case fractalHigh of
        None \<Rightarrow> False
      | Some f \<Rightarrow> date triggerBar > pivot_date f \<and>
                  (case pivot_high f of None \<Rightarrow> False | Some h \<Rightarrow> close_price triggerBar > h))"

definition closedBelow :: "bar \<Rightarrow> pivot option \<Rightarrow> bool" where
  "closedBelow triggerBar fractalLow =
     (case fractalLow of
        None \<Rightarrow> False
      | Some f \<Rightarrow> date triggerBar > pivot_date f \<and>
                  (case pivot_low f of None \<Rightarrow> False | Some l \<Rightarrow> close_price triggerBar < l))"

text \<open>The loop over the bars that have a next bar.\<close>

fun signalScan ::
  "bar list \<Rightarrow> pivot option \<Rightarrow> pivot option \<Rightarrow> trade_signal option \<Rightarrow> trade_signal option \<Rightarrow>
   trade_signal option \<times> trade_signal option" where
  "signalScan (triggerBar # entryBar # rest) fractalHigh fractalLow ls ss =
     (let ls' = (if ls = None \<and> closedAbove triggerBar fractalHigh
                 then Some (signalAt triggerBar entryBar) else ls);
          ss' = (if ss = None \<and> closedBelow triggerBar fractalLow
                 then Some (signalAt triggerBar entryBar) else ss)
      in if ls' \<noteq> None \<and> ss' \<noteq> None then (ls', ss')
         else signalScan (entryBar # rest) fractalHigh fractalLow ls' ss')"
| "signalScan bars fractalHigh fractalLow ls ss = (ls, ss)"

definition findFutureSignals ::
  "bar list \<Rightarrow> pivot option \<Rightarrow> pivot option \<Rightarrow> trade_signal option \<times> trade_signal option" where
  "findFutureSignals bars fractalHigh fractalLow =
     (if length bars < 2 then (None, None)
      else signalScan bars fractalHigh fractalLow None None)"

section \<open>The assembler: the route \<open>POST\<close>\<close>

definition LOOKBACK_FOR_START_POINT :: nat where "LOOKBACK_FOR_START_POINT = 180"
definition PIVOT_LOOKAROUND :: nat where "PIVOT_LOOKAROUND = 10"
definition SCALING_ATR_PERIOD :: nat where "SCALING_ATR_PERIOD = 50"
definition SCALING_TREND_PIVOTS :: nat where "SCALING_TREND_PIVOTS = 4"
definition SCALING_LOOKBACK :: nat where "SCALING_LOOKBACK = 180"
definition TREND_WEIGHT :: real where "TREND_WEIGHT = 0.6"
definition VOLATILITY_WEIGHT :: real where "VOLATILITY_WEIGHT = 0.4"

definition findSharpPivots :: "bar list \<Rightarrow> nat \<Rightarrow> timestamp set" where
  "findSharpPivots data lookaround =
     (if length data < lookaround * 2 + 1 then {}
      else set (map (\<lambda>i. date (data ! i))
             (filter (\<lambda>i. let window = take (2 * lookaround + 1) (drop (i - lookaround) data)
                          in high (data ! i) = Max (set (map high window)) \<or>
                             low (data ! i) = Min (set (map low window)))
                [lookaround ..< length data - lookaround])))"

text \<open>
  The scaling factor of \<open>calculateAndSetExit\<close>: \<open>let finalScalingFactor = 1\<close> and the
  two branches on the truthiness of the ratios.
\<close>

definition finalScalingFactor :: "real option \<Rightarrow> real option \<Rightarrow> real" where
  "finalScalingFactor trendRatio volatilityRatio =
     (if truthy trendRatio \<and> truthy volatilityRatio
        then the trendRatio * TREND_WEIGHT + the volatilityRatio * VOLATILITY_WEIGHT
      else if truthy trendRatio \<or> truthy volatilityRatio
        then (if truthy trendRatio then the trendRatio else the volatilityRatio)
      else 1)"

text \<open>
  What is stored in the field \<open>projectedExit\<close> of the signal: \<open>null\<close> and NaN are
  both falsy for every reader of the field, and both are \<open>None\<close>.
\<close>

definition projectionValue :: "projection \<Rightarrow> real option" where
  "projectionValue r = (case r of Price x \<Rightarrow> Some x | Null \<Rightarrow> None | NaN \<Rightarrow> None)"

text \<open>
  \<open>calculateAndSetExit\<close> updates the signal object in place; the model returns the
  updated signal. An index that \<open>findIndex\<close> does not find is \<open>-1\<close>.
\<close>

definition calculateAndSetExit ::
  "bar list \<Rightarrow> trade_signal option \<Rightarrow> signal_type \<Rightarrow> trade_signal option" where
  "calculateAndSetExit processedData signal signalType =
     (case signal of
        None \<Rightarrow> None
      | Some sg \<Rightarrow>
          (case findIndex (\<lambda>d. date d = triggerDate sg) processedData of
             None \<Rightarrow> Some sg
           | Some triggerIndex \<Rightarrow>
               if triggerIndex > 0 then
                 (case findExitProjectionPivot (take triggerIndex processedData) signalType of
                    None \<Rightarrow> Some sg
                  | Some ep \<Rightarrow>
                      (let pivotIndex =
                             (case findIndex (\<lambda>d. date d = pivot_date ep) processedData of
                                None \<Rightarrow> - 1 | Some k \<Rightarrow> int k);
                           scalingHistory =
                             drop (triggerIndex - SCALING_LOOKBACK) (take triggerIndex processedData);
                           trendRatio =
                             calculateTrendStructureRatio scalingHistory SCALING_TREND_PIVOTS 10;
                           volatilityRatio = calculateATR scalingHistory SCALING_ATR_PERIOD;
                           f = finalScalingFactor trendRatio volatilityRatio;
                           sg1 = (if f > 0 then
                                    sg\<lparr>projectedExit := projectionValue
                                         (calculateProjectedExit (Some signalType)
                                            (Some (close_price (processedData ! triggerIndex)))
                                            (Some ep)
                                            (Some (real_of_int (int triggerIndex - pivotIndex)))
                                            (Some f))\<rparr>
                                  else sg)
                       in Some (sg1\<lparr>exitPivot := Some ep\<rparr>)))
               else Some sg))"

text \<open>
  The body of the loop over the lookback periods; \<open>None\<close> is the \<open>continue\<close> for a
  lookback that runs past the data. The name of the start point is made from the ISO
  text of its date by \<open>nameOf\<close>.
\<close>

definition generateForLookback ::
  "(timestamp \<Rightarrow> string) \<Rightarrow> bar list \<Rightarrow> nat \<Rightarrow> nat \<Rightarrow> signal_data option" where
  "generateForLookback nameOf processedData i period =
     (let startIndex = i;
          pointYIndex = startIndex + period
      in if pointYIndex \<ge> length processedData then None
         else
           (let lookbackBar = processedData ! pointYIndex;
                stoplossScanWindow =
                  take (pointYIndex + 1 - startIndex) (drop startIndex processedData);
                (pvHigh, pvLow) = findInitialPivots stoplossScanWindow;
                signalScanWindow = drop (pointYIndex + 1) processedData;
                (ls, ss) = findFutureSignals signalScanWindow pvHigh pvLow
            in Some \<lparr>startPointName = nameOf (date (processedData ! i)),
                     startDateUTC = date (processedData ! i),
                     lookbackPeriod = period,
                     lookbackEndDate = date lookbackBar,
                     pivotHigh = pvHigh,
                     pivotLow = pvLow,
                     longSignal = calculateAndSetExit processedData ls LONG,
                     shortSignal = calculateAndSetExit processedData ss SHORT\<rparr>))"

text \<open>The main loop: \<open>allGeneratedSignals\<close>.\<close>

definition generateSignals ::
  "(timestamp \<Rightarrow> string) \<Rightarrow> bar list \<Rightarrow> nat \<Rightarrow> nat list \<Rightarrow> signal_data list" where
  "generateSignals nameOf processedData simulationStartIndex lookbackPeriods =
     (let sharpPivotTimestamps = findSharpPivots processedData PIVOT_LOOKAROUND
      in concat (map (\<lambda>i. if date (processedData ! i) \<notin> sharpPivotTimestamps then []
                          else List.map_filter (generateForLookback nameOf processedData i)
                                 lookbackPeriods)
                   [simulationStartIndex ..< length processedData]))"

text \<open>
  The route from the fetched and filtered bars on. An exception of the simulation is
  caught and answered with status 500.
\<close>

datatype post_error = StartDateNotInDataset | NotEnoughHistory | InternalServerError

definition POST ::
  "(timestamp \<Rightarrow> string) \<Rightarrow> bar list \<Rightarrow> timestamp \<Rightarrow> nat list \<Rightarrow> config \<Rightarrow>
   post_error + (trade_record list \<times> summary)" where
  "POST nameOf processedData userStartDate lookbackPeriods cfg =
     (case findIndex (\<lambda>b. date b \<ge> userStartDate) processedData of
        None \<Rightarrow> Inl StartDateNotInDataset
      | Some simulationStartIndex \<Rightarrow>
          if simulationStartIndex < LOOKBACK_FOR_START_POINT then Inl NotEnoughHistory
          else
            (case runBacktest
                    (generateSignals nameOf processedData simulationStartIndex lookbackPeriods)
                    processedData cfg of
               None \<Rightarrow> Inl InternalServerError
             | Some r \<Rightarrow> Inr r))"

subsection \<open>The states that the loop over the bars goes through\<close>

text \<open>
  The states after each pass of the loop over \<open>signalsToProcess\<close> (none after the
  \<open>break\<close>).
\<close>

fun enter_trace ::
  "config \<Rightarrow> bar list \<Rightarrow> bar \<Rightarrow> potential_trade list \<Rightarrow> state \<Rightarrow> state list" where
  "enter_trace cfg historicalData b [] s = []"
| "enter_trace cfg historicalData b (t # ts) s =
     (if at_cap (MAX_OPEN_POSITIONS cfg) (openPositions s) then []
      else enter_candidate cfg historicalData b t s
             # enter_trace cfg historicalData b ts (enter_candidate cfg historicalData b t s))"

text \<open>The states of one bar: after the closing of positions, then after each candidate.\<close>

definition bar_trace ::
  "config \<Rightarrow> bar list \<Rightarrow> (timestamp \<rightharpoonup> potential_trade list) \<Rightarrow> state \<Rightarrow> bar \<Rightarrow> state list" where
  "bar_trace cfg historicalData signalsByEntryBar s b =
     close_positions cfg b s
       # enter_trace cfg historicalData b (signalsToProcess cfg signalsByEntryBar b)
           (close_positions cfg b s)"

fun bars_trace ::
  "config \<Rightarrow> bar list \<Rightarrow> (timestamp \<rightharpoonup> potential_trade list) \<Rightarrow> state \<Rightarrow> bar list \<Rightarrow>
   state list" where
  "bars_trace cfg historicalData signalsByEntryBar s [] = []"
| "bars_trace cfg historicalData signalsByEntryBar s (b # bs) =
     bar_trace cfg historicalData signalsByEntryBar s b
       @ bars_trace cfg historicalData signalsByEntryBar
           (process_bar cfg historicalData signalsByEntryBar s b) bs"

text \<open>Every state of a run, from the initial state on.\<close>

definition run_trace :: "config \<Rightarrow> signal_data list \<Rightarrow> bar list \<Rightarrow> state list" where
  "run_trace cfg signals historicalData =
     initial_state cfg
       # bars_trace cfg historicalData (groupSignalsByEntryBar signals) (initial_state cfg)
           historicalData"

subsection \<open>Notions used to state the properties of \<open>groupSignalsByEntryBar\<close>\<close>

text \<open>
  A record without its short signal when it has a long signal (used to state that the
  short signal of such a record has no effect).
\<close>

definition dropShadowedShort :: "signal_data \<Rightarrow> signal_data" where
  "dropShadowedShort sd = (if longSignal sd \<noteq> None then sd\<lparr>shortSignal := None\<rparr> else sd)"

text \<open>The array stored in the table under a timestamp, \<open>[]\<close> when there is none.\<close>

definition tradesAt :: "(timestamp \<rightharpoonup> potential_trade list) \<Rightarrow> timestamp \<Rightarrow> potential_trade list" where
  "tradesAt m k = (case m k of None \<Rightarrow> [] | Some l \<Rightarrow> l)"

text \<open>The trades that pass the filter, in the order of the records.\<close>

definition keptTrades :: "signal_data list \<Rightarrow> potential_trade list" where
  "keptTrades signals = map the (filter keepTrade (map toPotentialTrade signals))"

definition withoutShadowedShort :: "potential_trade \<Rightarrow> potential_trade" where
  "withoutShadowedShort t = t\<lparr>signalData := dropShadowedShort (signalData t)\<rparr>"

subsection \<open>Notions used to state the properties of \<open>findInitialPivots\<close>\<close>

text \<open>The 3-bar fractal conditions (a 5-bar fractal satisfies them too).\<close>

definition isHighFractal :: "bar list \<Rightarrow> nat \<Rightarrow> bool" where
  "isHighFractal bars i \<longleftrightarrow>
     high (bars ! i) > high (bars ! (i - 1)) \<and> high (bars ! i) > high (bars ! (i + 1))"

definition isLowFractal :: "bar list \<Rightarrow> nat \<Rightarrow> bool" where
  "isLowFractal bars i \<longleftrightarrow>
     low (bars ! i) < low (bars ! (i - 1)) \<and> low (bars ! i) < low (bars ! (i + 1))"

subsection \<open>Notions used to state what the simulator does with the assembler's records\<close>

text \<open>A candidate without a usable stop or without a usable projected exit.\<close>

definition unusable :: "potential_trade \<Rightarrow> bool" where
  "unusable t \<longleftrightarrow> \<not> truthy (stopLoss_of t) \<or> \<not> truthy (projectedExit (tradeSignal t))"

section \<open>Example data\<close>

definition ex_cfg :: config where
  "ex_cfg = \<lparr>initialCapital = 1000, preventOnLosses = True, liquidateGroupOnLoss = False,
             allowSingleTradePerBar = False, positionSize = 1 / 10\<rparr>"

definition ex_bar :: "timestamp \<Rightarrow> real \<Rightarrow> real \<Rightarrow> real \<Rightarrow> real \<Rightarrow> bar" where
  "ex_bar d opn h l c =
     \<lparr>date = d, open_price = opn, high = h, low = l, close_price = c, volume = 0\<rparr>"

text \<open>
  A candidate with a long signal only: name, entry date, entry price, stop (the low of
  its low pivot) and projected exit.
\<close>

definition ex_long :: "string \<Rightarrow> timestamp \<Rightarrow> real \<Rightarrow> real \<Rightarrow> real \<Rightarrow> signal_data" where
  "ex_long nm d ep sl pe =
     \<lparr>startPointName = nm, startDateUTC = 0, lookbackPeriod = 1, lookbackEndDate = 0,
      pivotHigh = None,
      pivotLow = Some \<lparr>pivot_date = 0, pivot_high = None, pivot_low = Some sl\<rparr>,
      longSignal = Some \<lparr>triggerDate = d - 1, entryDate = Some d, entryPrice = ep,
                         projectedExit = Some pe, exitPivot = None\<rparr>,
      shortSignal = None\<rparr>"

definition ex_trade :: "string \<Rightarrow> timestamp \<Rightarrow> real \<Rightarrow> real \<Rightarrow> real \<Rightarrow> potential_trade" where
  "ex_trade nm d ep sl pe =
     \<lparr>signalData = ex_long nm d ep sl pe,
      tradeSignal = \<lparr>triggerDate = d - 1, entryDate = Some d, entryPrice = ep,
                     projectedExit = Some pe, exitPivot = None\<rparr>,
      isLong = True\<rparr>"

text \<open>A losing trade followed by a trade that exits at its entry price.\<close>

definition ex_bars_breakeven :: "bar list" where
  "ex_bars_breakeven = [ex_bar 1 10 11 8 9, ex_bar 2 10 11 10 (21 / 2)]"

definition ex_signals_breakeven :: "signal_data list" where
  "ex_signals_breakeven = [ex_long ''A'' 1 10 9 12, ex_long ''B'' 2 10 10 12]"

text \<open>A state of the simulator that is observing after two losses.\<close>

definition ex_observing :: state where
  "ex_observing = \<lparr>tradeLog = [], currentCapital = 980, consecutiveLosses = 2,
                   isObserving = True, openPositions = []\<rparr>"

text \<open>Two bars on which a long trade entered at 10 on the second bar reaches 12.\<close>

definition ex_bars_ghost :: "bar list" where
  "ex_bars_ghost = [ex_bar 1 10 11 8 9, ex_bar 2 10 13 (19 / 2) 12]"

text \<open>Three candidates on one bar that touches neither stop nor target, and room for two.\<close>

definition ex_cfg_half :: config where
  "ex_cfg_half = \<lparr>initialCapital = 1000, preventOnLosses = False,
                  liquidateGroupOnLoss = False, allowSingleTradePerBar = False,
                  positionSize = 1 / 2\<rparr>"

definition ex_bars_quiet :: "bar list" where
  "ex_bars_quiet = [ex_bar 1 10 11 (19 / 2) (21 / 2)]"

definition ex_signals_three :: "signal_data list" where
  "ex_signals_three = [ex_long ''A'' 1 10 9 12, ex_long ''B'' 1 10 9 12, ex_long ''C'' 1 10 9 12]"

text \<open>
  A run with a same-bar stop (B), a take profit on the next bar (A) and a position that
  is still open at the end (C).
\<close>

definition ex_cfg_plain :: config where
  "ex_cfg_plain = \<lparr>initialCapital = 1000, preventOnLosses = False,
                   liquidateGroupOnLoss = False, allowSingleTradePerBar = False,
                   positionSize = 1 / 10\<rparr>"

definition ex_bars_mixed :: "bar list" where
  "ex_bars_mixed = [ex_bar 1 10 11 (19 / 2) (21 / 2), ex_bar 2 11 (25 / 2) (21 / 2) 12]"

definition ex_signals_mixed :: "signal_data list" where
  "ex_signals_mixed =
     [ex_long ''A'' 1 10 9 12, ex_long ''B'' 1 10 (49 / 5) 12, ex_long ''C'' 2 11 9 15]"

text \<open>
  A record with a long and a short signal, a record with no signal, and a record whose
  long signal has no entry date.
\<close>

definition ex_both :: signal_data where
  "ex_both = (ex_long ''A'' 1 10 9 12)
     \<lparr>pivotHigh := Some \<lparr>pivot_date = 0, pivot_high = Some 11, pivot_low = None\<rparr>,
      shortSignal := Some \<lparr>triggerDate = 0, entryDate = Some 1, entryPrice = 10,
                           projectedExit = Some 8, exitPivot = None\<rparr>\<rparr>"

definition ex_neither :: signal_data where
  "ex_neither = (ex_long ''B'' 1 10 9 12)\<lparr>longSignal := None\<rparr>"

definition ex_noentry :: signal_data where
  "ex_noentry = (ex_long ''C'' 1 10 9 12)
     \<lparr>longSignal := Some \<lparr>triggerDate = 0, entryDate = None, entryPrice = 10,
                          projectedExit = Some 12, exitPivot = None\<rparr>\<rparr>"

definition ex_signals_records :: "signal_data list" where
  "ex_signals_records = [ex_both, ex_neither, ex_noentry]"

definition ex_low_pivot :: "real \<Rightarrow> pivot" where
  "ex_low_pivot l = \<lparr>pivot_date = 0, pivot_high = None, pivot_low = Some l\<rparr>"

text \<open>
  A window of five bars: the high fractal is bar 1 and the highest high after it is at
  bar 4; the low fractal (a 5-bar one) is bar 2.
\<close>

definition ex_window :: "bar list" where
  "ex_window = [ex_bar 1 9 10 8 9, ex_bar 2 10 12 9 11, ex_bar 3 9 11 7 10,
                ex_bar 4 10 (23 / 2) (17 / 2) 11, ex_bar 5 11 13 (19 / 2) 12]"

text \<open>
  A series of 191 bars with the same low throughout, so that no bar is a low fractal. Bar
  180 is a start point (its low is the lowest of the 21 bars around it), bar 181 is a high
  fractal, and bar 183 closes above it.
\<close>

definition ex_flat :: "nat \<Rightarrow> bar" where
  "ex_flat i =
     \<lparr>date = int i, open_price = 8,
      high = (if i = 181 then 12 else if i = 183 then 14 else 10),
      low = 5,
      close_price = (if i = 183 then 13 else 8),
      volume = 0\<rparr>"

definition ex_data :: "bar list" where
  "ex_data = map ex_flat [0 ..< 191]"

definition ex_name :: "timestamp \<Rightarrow> string" where
  "ex_name d = ''Auto Pivot''"

text \<open>The record that the assembler makes of that series.\<close>

definition ex_unusable :: signal_data where
  "ex_unusable =
     \<lparr>startPointName = ''Auto Pivot'', startDateUTC = 180, lookbackPeriod = 2,
      lookbackEndDate = 182,
      pivotHigh = Some \<lparr>pivot_date = 181, pivot_high = Some 12, pivot_low = None\<rparr>,
      pivotLow = None,
      longSignal = Some \<lparr>triggerDate = 183, entryDate = Some 184, entryPrice = 8,
                         projectedExit = None, exitPivot = None\<rparr>,
      shortSignal = None\<rparr>"

text \<open>
  Five bars with a low fractal at the second bar; the fourth bar is a trigger bar that
  closes at 8.5.
\<close>

definition ex_short_history :: "bar list" where
  "ex_short_history = [ex_bar 1 9 10 8 9, ex_bar 2 9 10 7 9, ex_bar 3 9 10 8 9,
                       ex_bar 4 9 10 8 (17 / 2), ex_bar 5 9 10 8 9]"

definition ex_trigger_signal :: trade_signal where
  "ex_trigger_signal = \<lparr>triggerDate = 4, entryDate = Some 5, entryPrice = 9,
                        projectedExit = None, exitPivot = None\<rparr>"

text \<open>
  A series of 367 bars that stand still at 10, but for a low of 9 on bar 1, a high of 12 on
  bar 181 and a close at 36 on bar 365.
\<close>

definition ex_calm :: "nat \<Rightarrow> bar" where
  "ex_calm i =
     \<lparr>date = int i, open_price = 10,
      high = (if i = 181 then 12 else if i = 365 then 36 else 10),
      low = (if i = 1 then 9 else 10),
      close_price = (if i = 365 then 36 else 10),
      volume = 0\<rparr>"

definition ex_calm_data :: "bar list" where
  "ex_calm_data = map ex_calm [0 ..< 367]"

text \<open>The record that the assembler makes of that series at bar 180.\<close>

definition ex_calm_record :: signal_data where
  "ex_calm_record =
     \<lparr>startPointName = ''Auto Pivot'', startDateUTC = 180, lookbackPeriod = 2,
      lookbackEndDate = 182,
      pivotHigh = Some \<lparr>pivot_date = 181, pivot_high = Some 12, pivot_low = None\<rparr>,
      pivotLow = None,
      longSignal = Some \<lparr>triggerDate = 365, entryDate = Some 366, entryPrice = 10,
                         projectedExit = Some 401,
                         exitPivot = Some \<lparr>pivot_date = 1, pivot_high = None,
                                            pivot_low = Some 9\<rparr>\<rparr>,
      shortSignal = None\<rparr>"

section \<open>The realization of an exit\<close>

lemma update_streak_fields:
  "tradeLog (update_streak cfg p s) = tradeLog s"
  "currentCapital (update_streak cfg p s) = currentCapital s"
  "openPositions (update_streak cfg p s) = openPositions s"
  by (simp_all add: update_streak_def Let_def)

lemma update_streak_losses:
  "consecutiveLosses (update_streak cfg p s) = (if p < 0 then consecutiveLosses s + 1 else 0)"
  by (simp add: update_streak_def Let_def)

lemma realize_exit_openPositions:
  "openPositions (realize_exit cfg b p r s) = openPositions s"
  by (simp add: realize_exit_def Let_def update_streak_fields)

lemma realize_exit_capital:
  "currentCapital (realize_exit cfg b p r s) = currentCapital s + position_profit p (exitPrice r)"
  by (simp add: realize_exit_def Let_def update_streak_fields)

lemma realize_exit_tradeLog:
  "tradeLog (realize_exit cfg b p r s) = tradeLog s @
     [\<lparr>tr_signal = pos_originalSignal p, tr_exitPrice = exitPrice r,
       tr_exitReason = exitReason r, tr_exitDate = date b,
       profit = position_profit p (exitPrice r),
       profitPct = position_profit p (exitPrice r) / pos_capitalAllocated p * 100\<rparr>]"
  by (simp add: realize_exit_def Let_def update_streak_fields)

lemma realize_exit_losses:
  "consecutiveLosses (realize_exit cfg b p r s) =
     (if position_profit p (exitPrice r) < 0 then consecutiveLosses s + 1 else 0)"
  by (simp add: realize_exit_def Let_def update_streak_losses)

lemma realize_exit_observing:
  "isObserving (realize_exit cfg b p r s) =
     (isObserving s \<or> (preventOnLosses cfg \<and> consecutiveLosses (realize_exit cfg b p r s) \<ge> 2))"
  by (auto simp add: realize_exit_def Let_def update_streak_def)

lemmas run_defs = run_bars_def groupSignalsByEntryBar_def allPotentialTrades_def
  toPotentialTrade_def keepTrade_def entryTimestamp_def process_bar_def close_positions_def
  initial_state_def signalsToProcess_def MAX_OPEN_POSITIONS_def at_cap_def enter_candidate_def
  stopLoss_of_def truthy_def sameDayResult_def newPosition_def realize_exit_def
  position_profit_def update_streak_def exit_result_def Let_def

lemmas ex_defs = ex_cfg_def ex_bar_def ex_long_def ex_trade_def

text \<open>
  C4, as the code has it: whenever an exit is realized (an ordinary exit, a group
  liquidation or a same-bar exit, which all go through \<open>realize_exit\<close>), the count of
  consecutive losses is incremented if the profit is negative and reset to 0 if the profit
  is zero or positive; when losses are to be prevented and the count has reached 2, the
  simulator is observing afterwards, and otherwise the observing flag is unchanged.
\<close>

theorem streak_update:
  "consecutiveLosses (realize_exit cfg b p r s) =
     (if position_profit p (exitPrice r) < 0 then consecutiveLosses s + 1 else 0) \<and>
   (preventOnLosses cfg \<and> consecutiveLosses (realize_exit cfg b p r s) \<ge> 2
      \<longrightarrow> isObserving (realize_exit cfg b p r s)) \<and>
   (\<not> (preventOnLosses cfg \<and> consecutiveLosses (realize_exit cfg b p r s) \<ge> 2)
      \<longrightarrow> isObserving (realize_exit cfg b p r s) = isObserving s)"
  using realize_exit_losses[of cfg b p r s] realize_exit_observing[of cfg b p r s] by auto

theorem streak_update_witness:
  "consecutiveLosses
     (realize_exit ex_cfg (ex_bar 1 10 11 8 9)
        (newPosition (ex_trade ''A'' 1 10 9 12) 9 12 100)
        \<lparr>exitPrice = 9, exitReason = ''Stop Loss Hit''\<rparr>
        ((initial_state ex_cfg)\<lparr>consecutiveLosses := 1\<rparr>)) = 2 \<and>
   isObserving
     (realize_exit ex_cfg (ex_bar 1 10 11 8 9)
        (newPosition (ex_trade ''A'' 1 10 9 12) 9 12 100)
        \<lparr>exitPrice = 9, exitReason = ''Stop Loss Hit''\<rparr>
        ((initial_state ex_cfg)\<lparr>consecutiveLosses := 1\<rparr>))"
  using streak_update[of ex_cfg "ex_bar 1 10 11 8 9"
      "newPosition (ex_trade ''A'' 1 10 9 12) 9 12 100"
      "\<lparr>exitPrice = 9, exitReason = ''Stop Loss Hit''\<rparr>"
      "(initial_state ex_cfg)\<lparr>consecutiveLosses := 1\<rparr>"]
  by (simp add: ex_defs newPosition_def position_profit_def initial_state_def entryTimestamp_def)

text \<open>
  C4 as stated fails: in this run the second trade is stopped out at its entry price on
  its entry bar, right after a losing trade. Its profit is 0, which is not positive, and
  the count is reset to 0 instead of reaching 2, so the simulator is not observing.
\<close>

theorem streak_breakeven_counterexample:
  "map profit (tradeLog (run_bars ex_cfg ex_signals_breakeven ex_bars_breakeven ex_bars_breakeven))
     = [- 10, 0] \<and>
   consecutiveLosses (run_bars ex_cfg ex_signals_breakeven ex_bars_breakeven ex_bars_breakeven) = 0 \<and>
   \<not> isObserving (run_bars ex_cfg ex_signals_breakeven ex_bars_breakeven ex_bars_breakeven)"
  by (simp add: run_defs ex_defs ex_signals_breakeven_def ex_bars_breakeven_def)



lemma enter_positions_no_win:
  assumes "preventOnLosses cfg" and "isObserving s"
    and "\<forall>t \<in> set ts. getGhostTradeOutcome t h \<noteq> Some Win"
  shows "enter_positions cfg h b ts s = s"
  using assms by (induction ts) (simp_all add: enter_candidate_def)

text \<open>
  C5: while losses are to be prevented and the simulator is observing, the evaluation of
  a candidate opens no position, leaves the capital and the trade log unchanged, and is
  decided by the ghost simulation alone: a ghost win ends the observation and resets the
  count of losses, and any other outcome leaves the whole state unchanged. So a list of
  candidates without a ghost win leaves the state as it is.
\<close>

theorem observing_only_ghost:
  assumes "preventOnLosses cfg" and "isObserving s"
  shows "openPositions (enter_candidate cfg h b t s) = openPositions s \<and>
         currentCapital (enter_candidate cfg h b t s) = currentCapital s \<and>
         tradeLog (enter_candidate cfg h b t s) = tradeLog s \<and>
         (getGhostTradeOutcome t h = Some Win \<longrightarrow>
            \<not> isObserving (enter_candidate cfg h b t s) \<and>
            consecutiveLosses (enter_candidate cfg h b t s) = 0) \<and>
         (getGhostTradeOutcome t h \<noteq> Some Win \<longrightarrow> enter_candidate cfg h b t s = s) \<and>
         ((\<forall>u \<in> set ts. getGhostTradeOutcome u h \<noteq> Some Win) \<longrightarrow>
            enter_positions cfg h b ts s = s)"
  using assms enter_positions_no_win[of cfg s ts h b] by (simp add: enter_candidate_def)

lemmas ghost_defs = getGhostTradeOutcome_def stopLoss_of_def truthy_def Let_def

theorem observing_only_ghost_witness:
  "preventOnLosses ex_cfg \<and> isObserving ex_observing \<and>
   getGhostTradeOutcome (ex_trade ''A'' 2 10 9 12) ex_bars_ghost = Some Win \<and>
   \<not> isObserving
       (enter_candidate ex_cfg ex_bars_ghost (ex_bar 2 10 13 (19 / 2) 12)
          (ex_trade ''A'' 2 10 9 12) ex_observing) \<and>
   consecutiveLosses
       (enter_candidate ex_cfg ex_bars_ghost (ex_bar 2 10 13 (19 / 2) 12)
          (ex_trade ''A'' 2 10 9 12) ex_observing) = 0 \<and>
   currentCapital
       (enter_candidate ex_cfg ex_bars_ghost (ex_bar 2 10 13 (19 / 2) 12)
          (ex_trade ''A'' 2 10 9 12) ex_observing) = 980 \<and>
   openPositions
       (enter_candidate ex_cfg ex_bars_ghost (ex_bar 2 10 13 (19 / 2) 12)
          (ex_trade ''A'' 2 10 9 12) ex_observing) = [] \<and>
   tradeLog
       (enter_candidate ex_cfg ex_bars_ghost (ex_bar 2 10 13 (19 / 2) 12)
          (ex_trade ''A'' 2 10 9 12) ex_observing) = []"
proof -
  have p: "preventOnLosses ex_cfg" by (simp add: ex_cfg_def)
  have o: "isObserving ex_observing" by (simp add: ex_observing_def)
  have w: "getGhostTradeOutcome (ex_trade ''A'' 2 10 9 12) ex_bars_ghost = Some Win"
    by (simp add: ghost_defs ex_defs ex_bars_ghost_def)
  show ?thesis
    using observing_only_ghost[OF p o, of ex_bars_ghost "ex_bar 2 10 13 (19 / 2) 12"
        "ex_trade ''A'' 2 10 9 12" "[]"] p o w
    by (simp add: ex_observing_def)
qed

text \<open>
  C6: a candidate that is accepted (the simulator is not observing, and the stop and the
  projected exit are present and not 0) is checked against its entry bar at once. If the
  bar touches the stop, the trade is realized on that bar at the stop price with the
  reason "Stop Loss Hit (Same Day)", also when the target is touched too; if only the
  target is touched, it is realized at the target with the reason "Take Profit Hit (Same
  Day)"; in both cases the open positions are unchanged. Otherwise the new position is
  appended to the open positions and nothing else changes.
\<close>

theorem same_bar_exit:
  assumes "\<not> (preventOnLosses cfg \<and> isObserving s)"
    and "stopLoss_of t = Some sl" and "sl \<noteq> 0"
    and "projectedExit (tradeSignal t) = Some pe" and "pe \<noteq> 0"
  shows "let s' = enter_candidate cfg h b t s;
             np = newPosition t sl pe (currentCapital s * positionSize cfg);
             stopTouched = (if isLong t then low b \<le> sl else high b \<ge> sl);
             targetTouched = (if isLong t then high b \<ge> pe else low b \<le> pe)
         in (stopTouched \<longrightarrow>
               openPositions s' = openPositions s \<and>
               currentCapital s' = currentCapital s + position_profit np sl \<and>
               tradeLog s' = tradeLog s @
                 [\<lparr>tr_signal = pos_originalSignal np, tr_exitPrice = sl,
                   tr_exitReason = ''Stop Loss Hit (Same Day)'', tr_exitDate = date b,
                   profit = position_profit np sl,
                   profitPct = position_profit np sl / pos_capitalAllocated np * 100\<rparr>]) \<and>
            (\<not> stopTouched \<and> targetTouched \<longrightarrow>
               openPositions s' = openPositions s \<and>
               currentCapital s' = currentCapital s + position_profit np pe \<and>
               tradeLog s' = tradeLog s @
                 [\<lparr>tr_signal = pos_originalSignal np, tr_exitPrice = pe,
                   tr_exitReason = ''Take Profit Hit (Same Day)'', tr_exitDate = date b,
                   profit = position_profit np pe,
                   profitPct = position_profit np pe / pos_capitalAllocated np * 100\<rparr>]) \<and>
            (\<not> stopTouched \<and> \<not> targetTouched \<longrightarrow>
               s' = s\<lparr>openPositions := openPositions s @ [np]\<rparr>)"
  using assms
  by (auto simp add: enter_candidate_def Let_def truthy_def sameDayResult_def
        realize_exit_openPositions realize_exit_capital realize_exit_tradeLog)

theorem same_bar_exit_witness:
  "openPositions
     (enter_candidate ex_cfg ex_bars_breakeven (ex_bar 1 10 13 8 9)
        (ex_trade ''A'' 1 10 9 12) (initial_state ex_cfg)) = [] \<and>
   map tr_exitReason (tradeLog
     (enter_candidate ex_cfg ex_bars_breakeven (ex_bar 1 10 13 8 9)
        (ex_trade ''A'' 1 10 9 12) (initial_state ex_cfg))) = [''Stop Loss Hit (Same Day)''] \<and>
   map tr_exitPrice (tradeLog
     (enter_candidate ex_cfg ex_bars_breakeven (ex_bar 1 10 13 8 9)
        (ex_trade ''A'' 1 10 9 12) (initial_state ex_cfg))) = [9] \<and>
   currentCapital
     (enter_candidate ex_cfg ex_bars_breakeven (ex_bar 1 10 13 8 9)
        (ex_trade ''A'' 1 10 9 12) (initial_state ex_cfg)) = 990"
proof -
  have a: "\<not> (preventOnLosses ex_cfg \<and> isObserving (initial_state ex_cfg))"
    by (simp add: initial_state_def)
  have sl: "stopLoss_of (ex_trade ''A'' 1 10 9 12) = Some 9"
    by (simp add: stopLoss_of_def ex_defs)
  have pe: "projectedExit (tradeSignal (ex_trade ''A'' 1 10 9 12)) = Some 12"
    by (simp add: ex_defs)
  show ?thesis
    using same_bar_exit[OF a sl _ pe, of ex_bars_breakeven "ex_bar 1 10 13 8 9"]
    by (simp add: Let_def ex_defs initial_state_def newPosition_def position_profit_def)
qed

section \<open>The cap on the open positions\<close>

subsection \<open>The trace ends in the state of the run\<close>

lemma last_enter_trace:
  "last (s # enter_trace cfg h b ts s) = enter_positions cfg h b ts s"
  by (induction ts arbitrary: s) simp_all

lemma last_bar_trace:
  "last (bar_trace cfg h sbe s b) = process_bar cfg h sbe s b"
  using last_enter_trace[of "close_positions cfg b s" cfg h b]
  by (simp add: bar_trace_def process_bar_def)

lemma bar_trace_nonempty: "bar_trace cfg h sbe s b \<noteq> []"
  by (simp add: bar_trace_def)

lemma last_bars_trace:
  "last (s # bars_trace cfg h sbe s bs) = foldl (process_bar cfg h sbe) s bs"
proof (induction bs arbitrary: s)
  case Nil
  show ?case by simp
next
  case (Cons b bs)
  have "last (s # bars_trace cfg h sbe s (b # bs))
        = last (bar_trace cfg h sbe s b @ bars_trace cfg h sbe (process_bar cfg h sbe s b) bs)"
    by (simp add: bar_trace_nonempty)
  also have "\<dots> = last (process_bar cfg h sbe s b
                        # bars_trace cfg h sbe (process_bar cfg h sbe s b) bs)"
    using last_bar_trace[of cfg h sbe s b] bar_trace_nonempty[of cfg h sbe s b]
    by (cases "bars_trace cfg h sbe (process_bar cfg h sbe s b) bs = []") simp_all
  finally show ?case using Cons.IH by simp
qed

lemma last_run_trace:
  "last (run_trace cfg signals h) = run_bars cfg signals h h"
  using last_bars_trace[of "initial_state cfg" cfg h "groupSignalsByEntryBar signals" h]
  by (simp add: run_trace_def run_bars_def)

subsection \<open>The number of open positions along the trace\<close>

lemma close_each_openPositions:
  "openPositions (fst (close_each cfg b origins ps s remaining)) = openPositions s"
  by (induction ps arbitrary: s remaining)
     (simp_all add: realize_exit_openPositions split: option.splits)

lemma close_each_remaining_length:
  "length (snd (close_each cfg b origins ps s remaining)) \<le> length remaining + length ps"
proof (induction ps arbitrary: s remaining)
  case Nil
  show ?case by simp
next
  case (Cons p ps)
  show ?case
  proof (cases "exit_result b origins p")
    case None
    then show ?thesis using Cons.IH[of s "remaining @ [p]"] by simp
  next
    case (Some r)
    then show ?thesis using Cons.IH[of "realize_exit cfg b p r s" remaining] by simp
  qed
qed

lemma close_positions_length:
  "length (openPositions (close_positions cfg b s)) \<le> length (openPositions s)"
  using close_each_remaining_length[of cfg b _ "openPositions s" s "[]"]
  by (simp add: close_positions_def Let_def split: prod.splits)
     (metis snd_conv)

lemma enter_candidate_length:
  "length (openPositions (enter_candidate cfg h b t s)) \<le> Suc (length (openPositions s))"
  by (simp add: enter_candidate_def Let_def realize_exit_openPositions split: option.splits)

lemma enter_trace_cap:
  assumes "MAX_OPEN_POSITIONS cfg = Finite k" and "int (length (openPositions s)) \<le> k"
  shows "\<forall>x \<in> set (enter_trace cfg h b ts s). int (length (openPositions x)) \<le> k"
  using assms(2)
proof (induction ts arbitrary: s)
  case Nil
  show ?case by simp
next
  case (Cons t ts)
  show ?case
  proof (cases "at_cap (MAX_OPEN_POSITIONS cfg) (openPositions s)")
    case True
    then show ?thesis by simp
  next
    case False
    then have "int (length (openPositions s)) < k"
      using assms(1) by (simp add: at_cap_def)
    then have "int (length (openPositions (enter_candidate cfg h b t s))) \<le> k"
      using enter_candidate_length[of cfg h b t s] by linarith
    then show ?thesis using False Cons.IH by simp
  qed
qed

lemma bar_trace_cap:
  assumes "MAX_OPEN_POSITIONS cfg = Finite k" and "int (length (openPositions s)) \<le> k"
  shows "\<forall>x \<in> set (bar_trace cfg h sbe s b). int (length (openPositions x)) \<le> k"
proof -
  have c: "int (length (openPositions (close_positions cfg b s))) \<le> k"
    using close_positions_length[of cfg b s] assms(2) by linarith
  show ?thesis
    using c enter_trace_cap[OF assms(1) c] by (simp add: bar_trace_def)
qed

lemma bars_trace_cap:
  assumes "MAX_OPEN_POSITIONS cfg = Finite k" and "int (length (openPositions s)) \<le> k"
  shows "\<forall>x \<in> set (bars_trace cfg h sbe s bs). int (length (openPositions x)) \<le> k"
  using assms(2)
proof (induction bs arbitrary: s)
  case Nil
  show ?case by simp
next
  case (Cons b bs)
  have bt: "\<forall>x \<in> set (bar_trace cfg h sbe s b). int (length (openPositions x)) \<le> k"
    using bar_trace_cap[OF assms(1) Cons.prems] .
  have "process_bar cfg h sbe s b \<in> set (bar_trace cfg h sbe s b)"
    using last_bar_trace[of cfg h sbe s b] bar_trace_nonempty[of cfg h sbe s b]
    by (metis last_in_set)
  then have "int (length (openPositions (process_bar cfg h sbe s b))) \<le> k"
    using bt by blast
  then show ?case using bt Cons.IH by auto
qed

text \<open>
  C7: for a position size above 0 (the spec's configuration has it in (0, 1]), every state
  that the loop over the bars goes through (the initial state, the state after the closing
  of positions on each bar, and the state after each candidate of each bar) has at most
  \<open>floor (1 / positionSize)\<close> open positions; the last of these states is the state in
  which the loop ends.
\<close>

theorem open_positions_cap:
  assumes "0 < positionSize cfg"
  shows "(\<forall>s \<in> set (run_trace cfg signals historicalData).
            int (length (openPositions s)) \<le> \<lfloor>1 / positionSize cfg\<rfloor>) \<and>
         last (run_trace cfg signals historicalData)
           = run_bars cfg signals historicalData historicalData"
proof -
  have m: "MAX_OPEN_POSITIONS cfg = Finite \<lfloor>1 / positionSize cfg\<rfloor>"
    using assms by (simp add: MAX_OPEN_POSITIONS_def)
  have "0 \<le> 1 / positionSize cfg" using assms by simp
  then have z: "0 \<le> \<lfloor>1 / positionSize cfg\<rfloor>" by simp
  then have i: "int (length (openPositions (initial_state cfg))) \<le> \<lfloor>1 / positionSize cfg\<rfloor>"
    by (simp add: initial_state_def)
  show ?thesis
    using i bars_trace_cap[OF m i] last_run_trace[of cfg signals historicalData]
    by (simp add: run_trace_def)
qed

lemmas trace_defs = run_trace_def bar_trace_def

theorem open_positions_cap_witness:
  "0 < positionSize ex_cfg_half \<and>
   map (\<lambda>s. length (openPositions s)) (run_trace ex_cfg_half ex_signals_three ex_bars_quiet)
     = [0, 0, 1, 2] \<and>
   \<lfloor>1 / positionSize ex_cfg_half\<rfloor> = 2 \<and>
   length (openPositions (run_bars ex_cfg_half ex_signals_three ex_bars_quiet ex_bars_quiet)) = 2"
proof -
  have p: "0 < positionSize ex_cfg_half" by (simp add: ex_cfg_half_def)
  have t: "map (\<lambda>s. length (openPositions s))
             (run_trace ex_cfg_half ex_signals_three ex_bars_quiet) = [0, 0, 1, 2]"
    by (simp add: trace_defs run_defs ex_defs ex_cfg_half_def ex_signals_three_def
          ex_bars_quiet_def)
  have r: "length (openPositions
               (run_bars ex_cfg_half ex_signals_three ex_bars_quiet ex_bars_quiet)) = 2"
    by (simp add: run_defs ex_defs ex_cfg_half_def ex_signals_three_def ex_bars_quiet_def)
  have f: "\<lfloor>1 / positionSize ex_cfg_half\<rfloor> = 2" by (simp add: ex_cfg_half_def)
  show ?thesis
    using open_positions_cap[OF p, of ex_signals_three ex_bars_quiet] p t r f
    by simp
qed

section \<open>The capital and the profits of the trade log\<close>

lemma realize_exit_balance:
  "currentCapital (realize_exit cfg b p r s) - sum_list (map profit (tradeLog (realize_exit cfg b p r s)))
     = currentCapital s - sum_list (map profit (tradeLog s))"
  by (simp add: realize_exit_capital realize_exit_tradeLog)

lemma close_each_balance:
  "currentCapital (fst (close_each cfg b origins ps s remaining))
     - sum_list (map profit (tradeLog (fst (close_each cfg b origins ps s remaining))))
   = currentCapital s - sum_list (map profit (tradeLog s))"
proof (induction ps arbitrary: s remaining)
  case Nil
  show ?case by simp
next
  case (Cons p ps)
  show ?case
  proof (cases "exit_result b origins p")
    case None
    then show ?thesis using Cons.IH[of s "remaining @ [p]"] by simp
  next
    case (Some r)
    then show ?thesis
      using Cons.IH[of "realize_exit cfg b p r s" remaining] realize_exit_balance[of cfg b p r s]
      by simp
  qed
qed

lemma close_positions_balance:
  "currentCapital (close_positions cfg b s) - sum_list (map profit (tradeLog (close_positions cfg b s)))
     = currentCapital s - sum_list (map profit (tradeLog s))"
proof -
  obtain s1 remaining where c:
    "close_each cfg b (if liquidateGroupOnLoss cfg
        then mark_origins b (openPositions s) Map.empty else Map.empty)
        (openPositions s) s [] = (s1, remaining)"
    by (cases "close_each cfg b (if liquidateGroupOnLoss cfg
        then mark_origins b (openPositions s) Map.empty else Map.empty)
        (openPositions s) s []") simp
  have "currentCapital s1 - sum_list (map profit (tradeLog s1))
          = currentCapital s - sum_list (map profit (tradeLog s))"
    using close_each_balance[of cfg b _ "openPositions s" s "[]"] c by (metis fst_conv)
  then show ?thesis using c by (simp add: close_positions_def Let_def)
qed

lemma enter_candidate_balance:
  "currentCapital (enter_candidate cfg h b t s)
     - sum_list (map profit (tradeLog (enter_candidate cfg h b t s)))
   = currentCapital s - sum_list (map profit (tradeLog s))"
  by (simp add: enter_candidate_def Let_def realize_exit_capital realize_exit_tradeLog
        split: option.splits)

lemma enter_positions_balance:
  "currentCapital (enter_positions cfg h b ts s)
     - sum_list (map profit (tradeLog (enter_positions cfg h b ts s)))
   = currentCapital s - sum_list (map profit (tradeLog s))"
  by (induction ts arbitrary: s) (simp_all add: enter_candidate_balance)

lemma process_bar_balance:
  "currentCapital (process_bar cfg h sbe s b)
     - sum_list (map profit (tradeLog (process_bar cfg h sbe s b)))
   = currentCapital s - sum_list (map profit (tradeLog s))"
  by (simp add: process_bar_def enter_positions_balance close_positions_balance)

lemma foldl_process_bar_balance:
  "currentCapital (foldl (process_bar cfg h sbe) s bs)
     - sum_list (map profit (tradeLog (foldl (process_bar cfg h sbe) s bs)))
   = currentCapital s - sum_list (map profit (tradeLog s))"
  by (induction bs arbitrary: s) (simp_all add: process_bar_balance)

lemma run_bars_balance:
  "currentCapital (run_bars cfg signals h bs)
     - sum_list (map profit (tradeLog (run_bars cfg signals h bs))) = initialCapital cfg"
  using foldl_process_bar_balance[of cfg h "groupSignalsByEntryBar signals" "initial_state cfg" bs]
  by (simp add: run_bars_def initial_state_def)

lemma close_at_end_balance:
  "currentCapital (close_at_end lastDay ps s)
     - sum_list (map profit (tradeLog (close_at_end lastDay ps s)))
   = currentCapital s - sum_list (map profit (tradeLog s))"
  by (induction ps arbitrary: s) (simp_all add: Let_def)

lemma sum_list_insort_key:
  "sum_list (map g (insort_key k x xs)) = (g x :: real) + sum_list (map g xs)"
  by (induction xs) simp_all

lemma sum_list_sort_key:
  "sum_list (map g (sort_key k xs)) = (sum_list (map g xs) :: real)"
  by (induction xs) (simp_all add: sum_list_insort_key)

subsection \<open>The run returns\<close>

lemma end_of_test_run:
  "\<exists>s. end_of_test h (run_bars cfg signals h h) = Some s"
  by (cases h) (simp_all add: end_of_test_def run_bars_def initial_state_def)

lemma end_of_test_balance:
  assumes "end_of_test h s = Some s'"
  shows "currentCapital s' - sum_list (map profit (tradeLog s'))
           = currentCapital s - sum_list (map profit (tradeLog s))"
  using assms close_at_end_balance[of "last h" "openPositions s" s]
  by (auto simp add: end_of_test_def split: if_splits)

lemma runBacktest_returns:
  "\<exists>lg sm. runBacktest signals h cfg = Some (lg, sm)"
  using end_of_test_run[of h cfg signals] by (auto simp add: runBacktest_def Let_def)

text \<open>
  C8: every run returns, and the profits of the records of the returned trade log add up
  to the final capital minus the initial capital (over the real numbers: the rounding of
  floating-point sums is not modelled). Each realized exit, same-bar exit and forced close
  at the end adds its profit to the capital and appends one record with that profit.
\<close>

theorem profit_accounting:
  "\<exists>lg sm. runBacktest signals historicalData cfg = Some (lg, sm) \<and>
           sum_list (map profit lg) = finalCapital sm - initialCapital cfg"
proof -
  obtain s where e:
    "end_of_test historicalData (run_bars cfg signals historicalData historicalData) = Some s"
    using end_of_test_run by blast
  have "currentCapital s - sum_list (map profit (tradeLog s)) = initialCapital cfg"
    using end_of_test_balance[OF e] run_bars_balance[of cfg signals historicalData historicalData]
    by simp
  then have "sum_list (map profit (sort_key (\<lambda>t. os_entryDate (tr_signal t)) (tradeLog s)))
               = currentCapital s - initialCapital cfg"
    by (simp add: sum_list_sort_key)
  then show ?thesis using e by (simp add: runBacktest_def Let_def summarize_def)
qed

lemmas end_defs = runBacktest_def end_of_test_def summarize_def

theorem profit_accounting_witness:
  "map_option (\<lambda>r. map profit (fst r)) (runBacktest ex_signals_mixed ex_bars_mixed ex_cfg_plain)
     = Some [- 2, 20, 509 / 55] \<and>
   map_option (\<lambda>r. map tr_exitReason (fst r))
       (runBacktest ex_signals_mixed ex_bars_mixed ex_cfg_plain)
     = Some [''Stop Loss Hit (Same Day)'', ''Take Profit Hit'', ''End of Test''] \<and>
   map_option (\<lambda>r. finalCapital (snd r)) (runBacktest ex_signals_mixed ex_bars_mixed ex_cfg_plain)
     = Some (56499 / 55) \<and>
   initialCapital ex_cfg_plain = 1000"
  using profit_accounting[of ex_signals_mixed ex_bars_mixed ex_cfg_plain]
  by (simp add: end_defs run_defs ex_defs ex_cfg_plain_def ex_signals_mixed_def ex_bars_mixed_def)

section \<open>One trade for each record\<close>

subsection \<open>The table of \<open>groupSignalsByEntryBar\<close>\<close>

lemma group_trades_lookup:
  "tradesAt (group_trades ts m) k = tradesAt m k @ filter (\<lambda>t. entryTimestamp t = k) ts"
  by (induction ts arbitrary: m) (auto simp add: tradesAt_def split: option.splits)

lemma groupSignalsByEntryBar_lookup:
  "tradesAt (groupSignalsByEntryBar signals) k
     = filter (\<lambda>t. entryTimestamp t = k) (keptTrades signals)"
  using group_trades_lookup[of "allPotentialTrades signals" Map.empty k]
        sort_key_stable[of entryTimestamp k "keptTrades signals"]
  by (simp add: groupSignalsByEntryBar_def allPotentialTrades_def keptTrades_def tradesAt_def)

lemma keptTrades_length: "length (keptTrades signals) \<le> length signals"
  using length_filter_le[of keepTrade "map toPotentialTrade signals"]
  by (simp add: keptTrades_def)

lemma signalsToProcess_tradesAt:
  "signalsToProcess cfg sbe b =
     (if allowSingleTradePerBar cfg then take 1 (tradesAt sbe (date b)) else tradesAt sbe (date b))"
  by (simp add: signalsToProcess_def tradesAt_def Let_def)

subsection \<open>Counting the trades\<close>

lemma close_each_count:
  "length (tradeLog (fst (close_each cfg b origins ps s remaining)))
     + length (snd (close_each cfg b origins ps s remaining))
   = length (tradeLog s) + length remaining + length ps"
proof (induction ps arbitrary: s remaining)
  case Nil
  show ?case by simp
next
  case (Cons p ps)
  show ?case
  proof (cases "exit_result b origins p")
    case None
    then show ?thesis using Cons.IH[of s "remaining @ [p]"] by simp
  next
    case (Some r)
    then show ?thesis
      using Cons.IH[of "realize_exit cfg b p r s" remaining]
      by (simp add: realize_exit_tradeLog)
  qed
qed

lemma close_positions_count:
  "length (tradeLog (close_positions cfg b s)) + length (openPositions (close_positions cfg b s))
     = length (tradeLog s) + length (openPositions s)"
proof -
  obtain s1 remaining where c:
    "close_each cfg b (if liquidateGroupOnLoss cfg
        then mark_origins b (openPositions s) Map.empty else Map.empty)
        (openPositions s) s [] = (s1, remaining)"
    by (cases "close_each cfg b (if liquidateGroupOnLoss cfg
        then mark_origins b (openPositions s) Map.empty else Map.empty)
        (openPositions s) s []") simp
  have "length (tradeLog s1) + length remaining = length (tradeLog s) + length (openPositions s)"
    using close_each_count[of cfg b _ "openPositions s" s "[]"] c
    by (metis add.right_neutral fst_conv list.size(3) snd_conv)
  then show ?thesis using c by (simp add: close_positions_def Let_def)
qed

lemma enter_candidate_count:
  "length (tradeLog (enter_candidate cfg h b t s))
     + length (openPositions (enter_candidate cfg h b t s))
   \<le> Suc (length (tradeLog s) + length (openPositions s))"
  by (simp add: enter_candidate_def Let_def realize_exit_tradeLog realize_exit_openPositions
        split: option.splits)

lemma enter_positions_count:
  "length (tradeLog (enter_positions cfg h b ts s))
     + length (openPositions (enter_positions cfg h b ts s))
   \<le> length (tradeLog s) + length (openPositions s) + length ts"
proof (induction ts arbitrary: s)
  case Nil
  show ?case by simp
next
  case (Cons t ts)
  show ?case
    using Cons.IH[of "enter_candidate cfg h b t s"] enter_candidate_count[of cfg h b t s]
    by simp
qed

lemma process_bar_count:
  "length (tradeLog (process_bar cfg h sbe s b)) + length (openPositions (process_bar cfg h sbe s b))
   \<le> length (tradeLog s) + length (openPositions s) + length (tradesAt sbe (date b))"
proof -
  have "length (signalsToProcess cfg sbe b) \<le> length (tradesAt sbe (date b))"
    by (simp add: signalsToProcess_tradesAt)
  then show ?thesis
    using enter_positions_count[of cfg h b "signalsToProcess cfg sbe b" "close_positions cfg b s"]
          close_positions_count[of cfg b s]
    by (simp add: process_bar_def)
qed

lemma foldl_process_bar_count:
  "length (tradeLog (foldl (process_bar cfg h sbe) s bs))
     + length (openPositions (foldl (process_bar cfg h sbe) s bs))
   \<le> length (tradeLog s) + length (openPositions s)
       + sum_list (map (\<lambda>b. length (tradesAt sbe (date b))) bs)"
proof (induction bs arbitrary: s)
  case Nil
  show ?case by simp
next
  case (Cons b bs)
  show ?case
    using Cons.IH[of "process_bar cfg h sbe s b"] process_bar_count[of cfg h sbe s b]
    by simp
qed

lemma filter_disjoint_length:
  assumes "\<And>x. \<not> (P x \<and> Q x)"
  shows "length (filter P xs) + length (filter Q xs) = length (filter (\<lambda>x. P x \<or> Q x) xs)"
  using assms by (induction xs) auto

lemma distinct_dates_count:
  assumes "distinct (map date bs)"
  shows "sum_list (map (\<lambda>b. length (filter (\<lambda>t. entryTimestamp t = date b) xs)) bs)
           = length (filter (\<lambda>t. entryTimestamp t \<in> date ` set bs) xs)"
  using assms
proof (induction bs)
  case Nil
  show ?case by simp
next
  case (Cons b bs)
  have d: "\<And>t. \<not> (entryTimestamp t = date b \<and> entryTimestamp t \<in> date ` set bs)"
    using Cons.prems by auto
  have "length (filter (\<lambda>t. entryTimestamp t = date b) xs)
          + length (filter (\<lambda>t. entryTimestamp t \<in> date ` set bs) xs)
        = length (filter (\<lambda>t. entryTimestamp t = date b \<or> entryTimestamp t \<in> date ` set bs) xs)"
    using filter_disjoint_length[of "\<lambda>t. entryTimestamp t = date b"
            "\<lambda>t. entryTimestamp t \<in> date ` set bs" xs] d by blast
  then show ?case using Cons by simp
qed

lemma run_bars_count:
  assumes "distinct (map date bs)"
  shows "length (tradeLog (run_bars cfg signals h bs))
           + length (openPositions (run_bars cfg signals h bs))
         \<le> length (keptTrades signals)"
proof -
  have "sum_list (map (\<lambda>b. length (tradesAt (groupSignalsByEntryBar signals) (date b))) bs)
          \<le> length (keptTrades signals)"
    using distinct_dates_count[OF assms, of "keptTrades signals"]
    by (simp add: groupSignalsByEntryBar_lookup)
  then show ?thesis
    using foldl_process_bar_count[of cfg h "groupSignalsByEntryBar signals" "initial_state cfg" bs]
    by (simp add: run_bars_def initial_state_def)
qed

lemma close_at_end_count:
  "length (tradeLog (close_at_end lastDay ps s)) = length (tradeLog s) + length ps"
  by (induction ps arbitrary: s) (simp_all add: Let_def)

lemma end_of_test_count:
  assumes "end_of_test h s = Some s'"
  shows "length (tradeLog s') = length (tradeLog s) + length (openPositions s)"
  using assms close_at_end_count[of "last h" "openPositions s" s]
  by (auto simp add: end_of_test_def split: if_splits)

lemma runBacktest_count:
  assumes "distinct (map date h)"
  shows "\<exists>lg sm. runBacktest signals h cfg = Some (lg, sm)
                  \<and> length lg \<le> length (keptTrades signals)"
proof -
  obtain s where e: "end_of_test h (run_bars cfg signals h h) = Some s"
    using end_of_test_run by blast
  have "length (tradeLog s) \<le> length (keptTrades signals)"
    using end_of_test_count[OF e] run_bars_count[OF assms, of cfg signals h] by simp
  then show ?thesis using e by (simp add: runBacktest_def Let_def)
qed

subsection \<open>The short signal of a record with a long signal has no effect\<close>

lemma toPotentialTrade_dropShadowedShort:
  "toPotentialTrade (dropShadowedShort sd) = map_option withoutShadowedShort (toPotentialTrade sd)"
  by (simp add: toPotentialTrade_def dropShadowedShort_def withoutShadowedShort_def
        split: option.splits)

lemma keepTrade_withoutShadowedShort:
  "keepTrade (map_option withoutShadowedShort x) = keepTrade x"
  by (cases x) (simp_all add: keepTrade_def withoutShadowedShort_def)

lemma entryTimestamp_withoutShadowedShort:
  "entryTimestamp (withoutShadowedShort t) = entryTimestamp t"
  by (simp add: entryTimestamp_def withoutShadowedShort_def)

lemma keptTrades_dropShadowedShort:
  "keptTrades (map dropShadowedShort signals) = map withoutShadowedShort (keptTrades signals)"
proof (induction signals)
  case Nil
  show ?case by (simp add: keptTrades_def)
next
  case (Cons sd signals)
  have k: "keepTrade (toPotentialTrade (dropShadowedShort sd)) = keepTrade (toPotentialTrade sd)"
    by (simp add: toPotentialTrade_dropShadowedShort keepTrade_withoutShadowedShort)
  show ?case
  proof (cases "keepTrade (toPotentialTrade sd)")
    case True
    then obtain t where t: "toPotentialTrade sd = Some t"
      by (cases "toPotentialTrade sd") (simp_all add: keepTrade_def)
    then show ?thesis
      using Cons.IH True k
      by (simp add: keptTrades_def toPotentialTrade_dropShadowedShort)
  next
    case False
    then show ?thesis using Cons.IH k by (simp add: keptTrades_def)
  qed
qed

lemma tradesAt_dropShadowedShort:
  "tradesAt (groupSignalsByEntryBar (map dropShadowedShort signals)) k
     = map withoutShadowedShort (tradesAt (groupSignalsByEntryBar signals) k)"
  by (simp add: groupSignalsByEntryBar_lookup keptTrades_dropShadowedShort filter_map o_def
        entryTimestamp_withoutShadowedShort)

lemma withoutShadowedShort_fields:
  "tradeSignal (withoutShadowedShort t) = tradeSignal t"
  "isLong (withoutShadowedShort t) = isLong t"
  by (simp_all add: withoutShadowedShort_def)

lemma stopLoss_of_withoutShadowedShort:
  "stopLoss_of (withoutShadowedShort t) = stopLoss_of t"
  by (simp add: stopLoss_of_def withoutShadowedShort_def dropShadowedShort_def)

lemma getGhostTradeOutcome_withoutShadowedShort:
  "getGhostTradeOutcome (withoutShadowedShort t) h = getGhostTradeOutcome t h"
  unfolding getGhostTradeOutcome_def stopLoss_of_withoutShadowedShort
    withoutShadowedShort_fields
  by (rule refl)

lemma newPosition_withoutShadowedShort:
  "newPosition (withoutShadowedShort t) sl pe c = newPosition t sl pe c"
  by (simp add: newPosition_def entryTimestamp_withoutShadowedShort)
     (simp add: withoutShadowedShort_def dropShadowedShort_def)

lemma enter_candidate_withoutShadowedShort:
  "enter_candidate cfg h b (withoutShadowedShort t) s = enter_candidate cfg h b t s"
  unfolding enter_candidate_def stopLoss_of_withoutShadowedShort
    getGhostTradeOutcome_withoutShadowedShort newPosition_withoutShadowedShort
    withoutShadowedShort_fields
  by (rule refl)

lemma enter_positions_withoutShadowedShort:
  "enter_positions cfg h b (map withoutShadowedShort ts) s = enter_positions cfg h b ts s"
  by (induction ts arbitrary: s) (simp_all add: enter_candidate_withoutShadowedShort)

lemma process_bar_dropShadowedShort:
  "process_bar cfg h (groupSignalsByEntryBar (map dropShadowedShort signals)) s b
     = process_bar cfg h (groupSignalsByEntryBar signals) s b"
  by (simp add: process_bar_def signalsToProcess_tradesAt tradesAt_dropShadowedShort
        take_map enter_positions_withoutShadowedShort)

lemma run_bars_dropShadowedShort:
  "run_bars cfg (map dropShadowedShort signals) h bs = run_bars cfg signals h bs"
proof -
  have "process_bar cfg h (groupSignalsByEntryBar (map dropShadowedShort signals))
          = process_bar cfg h (groupSignalsByEntryBar signals)"
    by (intro ext) (rule process_bar_dropShadowedShort)
  then show ?thesis by (simp add: run_bars_def)
qed

lemma runBacktest_dropShadowedShort:
  "runBacktest (map dropShadowedShort signals) h cfg = runBacktest signals h cfg"
  by (simp add: runBacktest_def run_bars_dropShadowedShort)

text \<open>
  C10: each record of the signals list gives at most one potential trade. A record with a
  long signal gives the trade of its long signal, whatever its short signal is; a record
  with a short signal only gives the trade of that signal; a record with neither gives
  none, and a trade whose signal has no entry date is filtered out. The table of
  \<open>groupSignalsByEntryBar\<close> holds under each timestamp exactly the kept trades with
  that entry date, in the order of the records. The run is the same when the short signal
  is removed from every record that has a long signal. On bars with distinct dates (the
  bar series of the data model has no duplicate timestamp) the returned trade log has at
  most one record for each kept trade, so at most one for each record of the list.
\<close>

theorem one_trade_per_record:
  "(longSignal sd = Some l \<longrightarrow>
      toPotentialTrade sd = Some \<lparr>signalData = sd, tradeSignal = l, isLong = True\<rparr>) \<and>
   (longSignal sd = None \<longrightarrow> shortSignal sd = Some sh \<longrightarrow>
      toPotentialTrade sd = Some \<lparr>signalData = sd, tradeSignal = sh, isLong = False\<rparr>) \<and>
   (longSignal sd = None \<longrightarrow> shortSignal sd = None \<longrightarrow> toPotentialTrade sd = None) \<and>
   keptTrades signals = map the (filter keepTrade (map toPotentialTrade signals)) \<and>
   (keepTrade x \<longleftrightarrow> (\<exists>t. x = Some t \<and> entryDate (tradeSignal t) \<noteq> None)) \<and>
   tradesAt (groupSignalsByEntryBar signals) k
     = filter (\<lambda>t. entryTimestamp t = k) (keptTrades signals) \<and>
   runBacktest (map dropShadowedShort signals) historicalData cfg
     = runBacktest signals historicalData cfg \<and>
   (distinct (map date historicalData) \<longrightarrow>
      (\<exists>lg sm. runBacktest signals historicalData cfg = Some (lg, sm) \<and>
                length lg \<le> length (keptTrades signals) \<and>
                length (keptTrades signals) \<le> length signals))"
proof -
  have a: "longSignal sd = Some l \<longrightarrow>
      toPotentialTrade sd = Some \<lparr>signalData = sd, tradeSignal = l, isLong = True\<rparr>"
    by (simp add: toPotentialTrade_def)
  have b: "longSignal sd = None \<longrightarrow> shortSignal sd = Some sh \<longrightarrow>
      toPotentialTrade sd = Some \<lparr>signalData = sd, tradeSignal = sh, isLong = False\<rparr>"
    by (simp add: toPotentialTrade_def)
  have c: "longSignal sd = None \<longrightarrow> shortSignal sd = None \<longrightarrow> toPotentialTrade sd = None"
    by (simp add: toPotentialTrade_def)
  have d: "keepTrade x \<longleftrightarrow> (\<exists>t. x = Some t \<and> entryDate (tradeSignal t) \<noteq> None)"
    by (cases x) (simp_all add: keepTrade_def)
  have e: "distinct (map date historicalData) \<longrightarrow>
      (\<exists>lg sm. runBacktest signals historicalData cfg = Some (lg, sm) \<and>
                length lg \<le> length (keptTrades signals) \<and>
                length (keptTrades signals) \<le> length signals)"
    using runBacktest_count[of historicalData signals cfg] keptTrades_length[of signals]
    by blast
  show ?thesis
    using a b c d e groupSignalsByEntryBar_lookup[of signals k]
          runBacktest_dropShadowedShort[of signals historicalData cfg]
    by (simp add: keptTrades_def)
qed

lemmas records_defs = ex_signals_records_def ex_both_def ex_neither_def ex_noentry_def

theorem one_trade_per_record_witness:
  "distinct (map date ex_bars_mixed) \<and>
   map_option (\<lambda>r. map (\<lambda>t. os_type (tr_signal t)) (fst r))
       (runBacktest ex_signals_records ex_bars_mixed ex_cfg_plain) = Some [''Long''] \<and>
   map isLong (keptTrades ex_signals_records) = [True] \<and>
   toPotentialTrade ex_neither = None \<and>
   \<not> keepTrade (toPotentialTrade ex_noentry)"
proof -
  have d: "distinct (map date ex_bars_mixed)"
    by (simp add: ex_bars_mixed_def ex_bar_def)
  have k: "map isLong (keptTrades ex_signals_records) = [True]"
    by (simp add: keptTrades_def toPotentialTrade_def keepTrade_def records_defs ex_defs)
  have r: "map_option (\<lambda>r. map (\<lambda>t. os_type (tr_signal t)) (fst r))
       (runBacktest ex_signals_records ex_bars_mixed ex_cfg_plain) = Some [''Long'']"
    by (simp add: end_defs run_defs records_defs ex_defs ex_cfg_plain_def ex_bars_mixed_def)
  show ?thesis
    using one_trade_per_record[of ex_neither "the (longSignal ex_both)"
            "the (shortSignal ex_both)" ex_signals_records "toPotentialTrade ex_noentry" 1
            ex_bars_mixed ex_cfg_plain] d k r
    by (simp add: records_defs ex_defs toPotentialTrade_def)
qed

section \<open>The projected exit\<close>

lemma radius_nonneg:
  assumes "0 < (f::real)"
  shows "0 \<le> sqrt (d\<^sup>2 + (\<bar>t - pp\<bar> / f)\<^sup>2) * f"
  using assms by simp

lemma radius_pos_iff:
  assumes "0 < (f::real)"
  shows "0 < sqrt (d\<^sup>2 + (\<bar>t - pp\<bar> / f)\<^sup>2) * f \<longleftrightarrow> d \<noteq> 0 \<or> t \<noteq> pp"
proof -
  have "0 < sqrt (d\<^sup>2 + (\<bar>t - pp\<bar> / f)\<^sup>2) \<longleftrightarrow> d \<noteq> 0 \<or> \<bar>t - pp\<bar> / f \<noteq> 0"
    by (simp add: sum_power2_gt_zero_iff)
  moreover have "\<bar>t - pp\<bar> / f \<noteq> 0 \<longleftrightarrow> t \<noteq> pp"
    using assms by simp
  ultimately show ?thesis
    using assms by (simp add: zero_less_mult_iff)
qed

lemma calculateProjectedExit_Null_iff:
  "calculateProjectedExit st tp pv td sf = Null \<longleftrightarrow>
     st = None \<or> tp = None \<or> tp = Some 0 \<or> pv = None \<or> td = None \<or>
     (\<exists>f. sf = Some f \<and> f \<le> 0)"
  by (cases tp; cases sf)
     (auto simp add: calculateProjectedExit_def truthy_def Let_def split: option.splits)

lemma calculateProjectedExit_LONG:
  assumes "t \<noteq> 0" and "0 < f" and "pivot_low p = Some pp"
  shows "calculateProjectedExit (Some LONG) (Some t) (Some p) (Some d) (Some f)
           = Price (t + f * sqrt (d\<^sup>2 + (\<bar>t - pp\<bar> / f)\<^sup>2))"
  using assms by (simp add: calculateProjectedExit_def truthy_def Let_def mult.commute)

lemma calculateProjectedExit_SHORT:
  assumes "t \<noteq> 0" and "0 < f" and "pivot_high p = Some pp"
  shows "calculateProjectedExit (Some SHORT) (Some t) (Some p) (Some d) (Some f)
           = Price (t - f * sqrt (d\<^sup>2 + (\<bar>t - pp\<bar> / f)\<^sup>2))"
  using assms by (simp add: calculateProjectedExit_def truthy_def Let_def mult.commute)

lemma calculateProjectedExit_default:
  "calculateProjectedExit st tp pv td None = calculateProjectedExit st tp pv td (Some 1)"
  by (simp add: calculateProjectedExit_def)

text \<open>
  C3, as the code has it: \<open>calculateProjectedExit\<close> returns \<open>null\<close> exactly when the
  scaling factor is given and not positive, or the signal type, the pivot or the time
  difference is missing, or the trigger price is missing or 0 (a scaling factor that is
  not given counts as 1). For every other input whose pivot has the price that is read
  (\<open>pivot.low\<close> for a LONG, \<open>pivot.high\<close> for a SHORT) it returns the trigger price
  plus (LONG) or minus (SHORT) the radius
  \<open>scalingFactor * sqrt (timeDifference^2 + (|triggerPrice - pivotPrice| / scalingFactor)^2)\<close>;
  the returned price is at least the trigger price for a LONG and at most the trigger
  price for a SHORT, and it differs from the trigger price exactly when the time
  difference is not 0 or the trigger price is not the pivot price.
\<close>

theorem projected_exit:
  "(calculateProjectedExit st tp pv td sf = Null \<longleftrightarrow>
      st = None \<or> tp = None \<or> tp = Some 0 \<or> pv = None \<or> td = None \<or>
      (\<exists>f. sf = Some f \<and> f \<le> 0)) \<and>
   calculateProjectedExit st tp pv td None = calculateProjectedExit st tp pv td (Some 1) \<and>
   (t \<noteq> 0 \<longrightarrow> 0 < f \<longrightarrow> pivot_low p = Some pp \<longrightarrow>
      (\<exists>x. calculateProjectedExit (Some LONG) (Some t) (Some p) (Some d) (Some f) = Price x \<and>
           x = t + f * sqrt (d\<^sup>2 + (\<bar>t - pp\<bar> / f)\<^sup>2) \<and> t \<le> x \<and>
           (t < x \<longleftrightarrow> d \<noteq> 0 \<or> t \<noteq> pp))) \<and>
   (t \<noteq> 0 \<longrightarrow> 0 < f \<longrightarrow> pivot_high p = Some pp \<longrightarrow>
      (\<exists>x. calculateProjectedExit (Some SHORT) (Some t) (Some p) (Some d) (Some f) = Price x \<and>
           x = t - f * sqrt (d\<^sup>2 + (\<bar>t - pp\<bar> / f)\<^sup>2) \<and> x \<le> t \<and>
           (x < t \<longleftrightarrow> d \<noteq> 0 \<or> t \<noteq> pp)))"
proof -
  have r: "0 < f \<Longrightarrow> 0 \<le> f * sqrt (d\<^sup>2 + (\<bar>t - pp\<bar> / f)\<^sup>2)"
    using radius_nonneg[of f d t pp] by (simp add: mult.commute)
  have s: "0 < f \<Longrightarrow> 0 < f * sqrt (d\<^sup>2 + (\<bar>t - pp\<bar> / f)\<^sup>2) \<longleftrightarrow> d \<noteq> 0 \<or> t \<noteq> pp"
    using radius_pos_iff[of f d t pp] by (simp add: mult.commute)
  show ?thesis
    using calculateProjectedExit_Null_iff[of st tp pv td sf]
          calculateProjectedExit_LONG[of t f p pp d] calculateProjectedExit_SHORT[of t f p pp d]
          calculateProjectedExit_default[of st tp pv td] r s
    by auto
qed

lemma sqrt_25: "sqrt 25 = 5"
  using real_sqrt_abs[of 5] by simp

theorem projected_exit_witness:
  "calculateProjectedExit (Some LONG) (Some 10) (Some (ex_low_pivot 7)) (Some 4) (Some 1)
     = Price 15 \<and>
   calculateProjectedExit (Some LONG) (Some 10) (Some (ex_low_pivot 7)) (Some 4) (Some 0) = Null"
proof -
  have a: "(10::real) \<noteq> 0" by simp
  have b: "(0::real) < 1" by simp
  have c: "pivot_low (ex_low_pivot 7) = Some 7" by (simp add: ex_low_pivot_def)
  show ?thesis
    using projected_exit[of "Some LONG" "Some 10" "Some (ex_low_pivot 7)" "Some 4" "Some 0"
            10 1 "ex_low_pivot 7" 7 4] a b c sqrt_25
    by auto
qed

text \<open>
  C3 as stated fails twice: with a time difference of 0 and a trigger price equal to the
  pivot's low the LONG projection is the trigger price itself, not a price above it; and
  a trigger price of 0 gives \<open>null\<close> although no input is missing and the scaling factor
  is positive.
\<close>

theorem projected_exit_counterexample:
  "calculateProjectedExit (Some LONG) (Some 5) (Some (ex_low_pivot 5)) (Some 0) (Some 1)
     = Price 5 \<and>
   calculateProjectedExit (Some LONG) (Some 0) (Some (ex_low_pivot 5)) (Some 2) (Some 1) = Null"
  by (simp add: calculateProjectedExit_def truthy_def ex_low_pivot_def)

section \<open>The correction of the initial pivots\<close>

subsection \<open>\<open>findIndex\<close>\<close>

lemma findIndex_distinct:
  assumes "distinct (map f xs)" and "i < length xs"
  shows "findIndex (\<lambda>d. f d = f (xs ! i)) xs = Some i"
  using assms
proof (induction xs arbitrary: i)
  case Nil
  then show ?case by simp
next
  case (Cons x xs)
  show ?case
  proof (cases i)
    case 0
    then show ?thesis by simp
  next
    case (Suc j)
    then have j: "j < length xs" using Cons.prems by simp
    then have "f (xs ! j) \<in> f ` set xs" by simp
    then have "f x \<noteq> f (xs ! j)" using Cons.prems(1) by auto
    then show ?thesis using Suc Cons.IH[of j] Cons.prems(1) j by simp
  qed
qed

subsection \<open>The initial pivots are fractal bars of the window\<close>

lemma scan5_high:
  assumes "fst (scan5 bars is ph pl) = Some p"
  shows "ph = Some p \<or> (\<exists>i \<in> set is. p = highPivotAt (bars ! i) \<and> isHighFractal bars i)"
  using assms
proof (induction "is" arbitrary: ph pl)
  case Nil
  then show ?case by simp
next
  case (Cons i "is")
  define ph' where "ph' =
     (if ph = None \<and>
         high (bars ! i) > high (bars ! (i - 1)) \<and> high (bars ! i) > high (bars ! (i - 2)) \<and>
         high (bars ! i) > high (bars ! (i + 1)) \<and> high (bars ! i) > high (bars ! (i + 2))
      then Some (highPivotAt (bars ! i)) else ph)"
  define pl' where "pl' =
     (if pl = None \<and>
         low (bars ! i) < low (bars ! (i - 1)) \<and> low (bars ! i) < low (bars ! (i - 2)) \<and>
         low (bars ! i) < low (bars ! (i + 1)) \<and> low (bars ! i) < low (bars ! (i + 2))
      then Some (lowPivotAt (bars ! i)) else pl)"
  have step: "scan5 bars (i # is) ph pl =
                (if ph' \<noteq> None \<and> pl' \<noteq> None then (ph', pl') else scan5 bars is ph' pl')"
    by (simp only: scan5.simps ph'_def pl'_def Let_def)
  have pr: "fst (if ph' \<noteq> None \<and> pl' \<noteq> None then (ph', pl') else scan5 bars is ph' pl') = Some p"
    using Cons.prems unfolding step .
  have own: "ph' = Some p \<Longrightarrow> ph = Some p \<or> (p = highPivotAt (bars ! i) \<and> isHighFractal bars i)"
    by (simp add: ph'_def isHighFractal_def split: if_splits)
  show ?case
  proof (cases "ph' \<noteq> None \<and> pl' \<noteq> None")
    case True
    have "ph' = Some p" using pr unfolding if_P[OF True] by simp
    then show ?thesis using own by auto
  next
    case False
    have "fst (scan5 bars is ph' pl') = Some p" using pr unfolding if_not_P[OF False] .
    then have "ph' = Some p \<or> (\<exists>j \<in> set is. p = highPivotAt (bars ! j) \<and> isHighFractal bars j)"
      using Cons.IH by blast
    then show ?thesis using own by auto
  qed
qed

lemma scan5_low:
  assumes "snd (scan5 bars is ph pl) = Some p"
  shows "pl = Some p \<or> (\<exists>i \<in> set is. p = lowPivotAt (bars ! i) \<and> isLowFractal bars i)"
  using assms
proof (induction "is" arbitrary: ph pl)
  case Nil
  then show ?case by simp
next
  case (Cons i "is")
  define ph' where "ph' =
     (if ph = None \<and>
         high (bars ! i) > high (bars ! (i - 1)) \<and> high (bars ! i) > high (bars ! (i - 2)) \<and>
         high (bars ! i) > high (bars ! (i + 1)) \<and> high (bars ! i) > high (bars ! (i + 2))
      then Some (highPivotAt (bars ! i)) else ph)"
  define pl' where "pl' =
     (if pl = None \<and>
         low (bars ! i) < low (bars ! (i - 1)) \<and> low (bars ! i) < low (bars ! (i - 2)) \<and>
         low (bars ! i) < low (bars ! (i + 1)) \<and> low (bars ! i) < low (bars ! (i + 2))
      then Some (lowPivotAt (bars ! i)) else pl)"
  have step: "scan5 bars (i # is) ph pl =
                (if ph' \<noteq> None \<and> pl' \<noteq> None then (ph', pl') else scan5 bars is ph' pl')"
    by (simp only: scan5.simps ph'_def pl'_def Let_def)
  have pr: "snd (if ph' \<noteq> None \<and> pl' \<noteq> None then (ph', pl') else scan5 bars is ph' pl') = Some p"
    using Cons.prems unfolding step .
  have own: "pl' = Some p \<Longrightarrow> pl = Some p \<or> (p = lowPivotAt (bars ! i) \<and> isLowFractal bars i)"
    by (simp add: pl'_def isLowFractal_def split: if_splits)
  show ?case
  proof (cases "ph' \<noteq> None \<and> pl' \<noteq> None")
    case True
    have "pl' = Some p" using pr unfolding if_P[OF True] by simp
    then show ?thesis using own by auto
  next
    case False
    have "snd (scan5 bars is ph' pl') = Some p" using pr unfolding if_not_P[OF False] .
    then have "pl' = Some p \<or> (\<exists>j \<in> set is. p = lowPivotAt (bars ! j) \<and> isLowFractal bars j)"
      using Cons.IH by blast
    then show ?thesis using own by auto
  qed
qed

lemma scan3_high:
  assumes "fst (scan3 bars is ph5 pl5 ph3 pl3) = Some p"
  shows "ph3 = Some p \<or> (\<exists>i \<in> set is. p = highPivotAt (bars ! i) \<and> isHighFractal bars i)"
  using assms
proof (induction "is" arbitrary: ph3 pl3)
  case Nil
  then show ?case by simp
next
  case (Cons i "is")
  define ph3' where "ph3' =
     (if ph5 = None \<and> ph3 = None \<and>
         high (bars ! i) > high (bars ! (i - 1)) \<and> high (bars ! i) > high (bars ! (i + 1))
      then Some (highPivotAt (bars ! i)) else ph3)"
  define pl3' where "pl3' =
     (if pl5 = None \<and> pl3 = None \<and>
         low (bars ! i) < low (bars ! (i - 1)) \<and> low (bars ! i) < low (bars ! (i + 1))
      then Some (lowPivotAt (bars ! i)) else pl3)"
  have step: "scan3 bars (i # is) ph5 pl5 ph3 pl3 =
                (if (ph5 \<noteq> None \<or> ph3' \<noteq> None) \<and> (pl5 \<noteq> None \<or> pl3' \<noteq> None)
                 then (ph3', pl3') else scan3 bars is ph5 pl5 ph3' pl3')"
    by (simp only: scan3.simps ph3'_def pl3'_def Let_def)
  have pr: "fst (if (ph5 \<noteq> None \<or> ph3' \<noteq> None) \<and> (pl5 \<noteq> None \<or> pl3' \<noteq> None)
                 then (ph3', pl3') else scan3 bars is ph5 pl5 ph3' pl3') = Some p"
    using Cons.prems unfolding step .
  have own: "ph3' = Some p \<Longrightarrow> ph3 = Some p \<or> (p = highPivotAt (bars ! i) \<and> isHighFractal bars i)"
    by (simp add: ph3'_def isHighFractal_def split: if_splits)
  show ?case
  proof (cases "(ph5 \<noteq> None \<or> ph3' \<noteq> None) \<and> (pl5 \<noteq> None \<or> pl3' \<noteq> None)")
    case True
    have "ph3' = Some p" using pr unfolding if_P[OF True] by simp
    then show ?thesis using own by auto
  next
    case False
    have "fst (scan3 bars is ph5 pl5 ph3' pl3') = Some p" using pr unfolding if_not_P[OF False] .
    then have "ph3' = Some p \<or> (\<exists>j \<in> set is. p = highPivotAt (bars ! j) \<and> isHighFractal bars j)"
      using Cons.IH by blast
    then show ?thesis using own by auto
  qed
qed

lemma scan3_low:
  assumes "snd (scan3 bars is ph5 pl5 ph3 pl3) = Some p"
  shows "pl3 = Some p \<or> (\<exists>i \<in> set is. p = lowPivotAt (bars ! i) \<and> isLowFractal bars i)"
  using assms
proof (induction "is" arbitrary: ph3 pl3)
  case Nil
  then show ?case by simp
next
  case (Cons i "is")
  define ph3' where "ph3' =
     (if ph5 = None \<and> ph3 = None \<and>
         high (bars ! i) > high (bars ! (i - 1)) \<and> high (bars ! i) > high (bars ! (i + 1))
      then Some (highPivotAt (bars ! i)) else ph3)"
  define pl3' where "pl3' =
     (if pl5 = None \<and> pl3 = None \<and>
         low (bars ! i) < low (bars ! (i - 1)) \<and> low (bars ! i) < low (bars ! (i + 1))
      then Some (lowPivotAt (bars ! i)) else pl3)"
  have step: "scan3 bars (i # is) ph5 pl5 ph3 pl3 =
                (if (ph5 \<noteq> None \<or> ph3' \<noteq> None) \<and> (pl5 \<noteq> None \<or> pl3' \<noteq> None)
                 then (ph3', pl3') else scan3 bars is ph5 pl5 ph3' pl3')"
    by (simp only: scan3.simps ph3'_def pl3'_def Let_def)
  have pr: "snd (if (ph5 \<noteq> None \<or> ph3' \<noteq> None) \<and> (pl5 \<noteq> None \<or> pl3' \<noteq> None)
                 then (ph3', pl3') else scan3 bars is ph5 pl5 ph3' pl3') = Some p"
    using Cons.prems unfolding step .
  have own: "pl3' = Some p \<Longrightarrow> pl3 = Some p \<or> (p = lowPivotAt (bars ! i) \<and> isLowFractal bars i)"
    by (simp add: pl3'_def isLowFractal_def split: if_splits)
  show ?case
  proof (cases "(ph5 \<noteq> None \<or> ph3' \<noteq> None) \<and> (pl5 \<noteq> None \<or> pl3' \<noteq> None)")
    case True
    have "pl3' = Some p" using pr unfolding if_P[OF True] by simp
    then show ?thesis using own by auto
  next
    case False
    have "snd (scan3 bars is ph5 pl5 ph3' pl3') = Some p" using pr unfolding if_not_P[OF False] .
    then have "pl3' = Some p \<or> (\<exists>j \<in> set is. p = lowPivotAt (bars ! j) \<and> isLowFractal bars j)"
      using Cons.IH by blast
    then show ?thesis using own by auto
  qed
qed

lemma initialPivots_high:
  assumes "fst (initialPivots bars) = Some p"
  shows "\<exists>i. 1 \<le> i \<and> i + 1 < length bars \<and> p = highPivotAt (bars ! i) \<and> isHighFractal bars i"
proof -
  obtain ph5 pl5 where s5:
    "(if length bars \<ge> 5 then scan5 bars (rev [2 ..< length bars - 2]) None None
      else (None, None)) = (ph5, pl5)"
    by (cases "if length bars \<ge> 5 then scan5 bars (rev [2 ..< length bars - 2]) None None
               else (None, None)") simp
  obtain ph3 pl3 where s3:
    "scan3 bars (rev [1 ..< length bars - 1]) ph5 pl5 None None = (ph3, pl3)"
    by (cases "scan3 bars (rev [1 ..< length bars - 1]) ph5 pl5 None None") simp
  have o: "orElse ph5 ph3 = Some p"
    using assms s5 s3 by (simp add: initialPivots_def)
  show ?thesis
  proof (cases ph5)
    case None
    then have "ph3 = Some p" using o by (simp add: orElse_def)
    then have "fst (scan3 bars (rev [1 ..< length bars - 1]) ph5 pl5 None None) = Some p"
      using s3 by simp
    then obtain i where "i \<in> set (rev [1 ..< length bars - 1])"
        and "p = highPivotAt (bars ! i)" and "isHighFractal bars i"
      using scan3_high by blast
    then show ?thesis by (intro exI[of _ i]) auto
  next
    case (Some q)
    then have q: "ph5 = Some p" using o by (simp add: orElse_def)
    then have l: "length bars \<ge> 5" using s5 by (auto split: if_splits)
    then have "fst (scan5 bars (rev [2 ..< length bars - 2]) None None) = Some p"
      using s5 q by simp
    then obtain i where "i \<in> set (rev [2 ..< length bars - 2])"
        and "p = highPivotAt (bars ! i)" and "isHighFractal bars i"
      using scan5_high by blast
    then show ?thesis by (intro exI[of _ i]) auto
  qed
qed

lemma initialPivots_low:
  assumes "snd (initialPivots bars) = Some p"
  shows "\<exists>i. 1 \<le> i \<and> i + 1 < length bars \<and> p = lowPivotAt (bars ! i) \<and> isLowFractal bars i"
proof -
  obtain ph5 pl5 where s5:
    "(if length bars \<ge> 5 then scan5 bars (rev [2 ..< length bars - 2]) None None
      else (None, None)) = (ph5, pl5)"
    by (cases "if length bars \<ge> 5 then scan5 bars (rev [2 ..< length bars - 2]) None None
               else (None, None)") simp
  obtain ph3 pl3 where s3:
    "scan3 bars (rev [1 ..< length bars - 1]) ph5 pl5 None None = (ph3, pl3)"
    by (cases "scan3 bars (rev [1 ..< length bars - 1]) ph5 pl5 None None") simp
  have o: "orElse pl5 pl3 = Some p"
    using assms s5 s3 by (simp add: initialPivots_def)
  show ?thesis
  proof (cases pl5)
    case None
    then have "pl3 = Some p" using o by (simp add: orElse_def)
    then have "snd (scan3 bars (rev [1 ..< length bars - 1]) ph5 pl5 None None) = Some p"
      using s3 by simp
    then obtain i where "i \<in> set (rev [1 ..< length bars - 1])"
        and "p = lowPivotAt (bars ! i)" and "isLowFractal bars i"
      using scan3_low by blast
    then show ?thesis by (intro exI[of _ i]) auto
  next
    case (Some q)
    then have q: "pl5 = Some p" using o by (simp add: orElse_def)
    then have l: "length bars \<ge> 5" using s5 by (auto split: if_splits)
    then have "snd (scan5 bars (rev [2 ..< length bars - 2]) None None) = Some p"
      using s5 q by simp
    then obtain i where "i \<in> set (rev [2 ..< length bars - 2])"
        and "p = lowPivotAt (bars ! i)" and "isLowFractal bars i"
      using scan5_low by blast
    then show ?thesis by (intro exI[of _ i]) auto
  qed
qed

subsection \<open>The correction loops\<close>

lemma correctHighLoop_bound:
  assumes "correctHighLoop bs m cb = (m', cb')"
  shows "m \<le> m' \<and> (\<forall>b \<in> set bs. high b \<le> m')"
  using assms
proof (induction bs arbitrary: m cb)
  case Nil
  then show ?case by simp
next
  case (Cons b bs)
  show ?case
  proof (cases "high b > m")
    case True
    then have "correctHighLoop bs (high b) b = (m', cb')" using Cons.prems by simp
    then have "high b \<le> m' \<and> (\<forall>x \<in> set bs. high x \<le> m')" using Cons.IH by blast
    then show ?thesis using True by auto
  next
    case False
    then have "correctHighLoop bs m cb = (m', cb')" using Cons.prems by simp
    then have "m \<le> m' \<and> (\<forall>x \<in> set bs. high x \<le> m')" using Cons.IH by blast
    then show ?thesis using False by auto
  qed
qed

lemma correctHighLoop_bar:
  assumes "correctHighLoop bs m cb = (m', cb')" and "high cb = m"
  shows "high cb' = m' \<and> (cb' = cb \<or> cb' \<in> set bs)"
  using assms
proof (induction bs arbitrary: m cb)
  case Nil
  then show ?case by simp
next
  case (Cons b bs)
  show ?case
  proof (cases "high b > m")
    case True
    then have "correctHighLoop bs (high b) b = (m', cb')" using Cons.prems by simp
    then have "high cb' = m' \<and> (cb' = b \<or> cb' \<in> set bs)" using Cons.IH[of "high b" b] by simp
    then show ?thesis by auto
  next
    case False
    then have "correctHighLoop bs m cb = (m', cb')" using Cons.prems by simp
    then have "high cb' = m' \<and> (cb' = cb \<or> cb' \<in> set bs)" using Cons.IH Cons.prems(2) by blast
    then show ?thesis by auto
  qed
qed

lemma correctLowLoop_bound:
  assumes "correctLowLoop bs m cb = (m', cb')"
  shows "m' \<le> m \<and> (\<forall>b \<in> set bs. m' \<le> low b)"
  using assms
proof (induction bs arbitrary: m cb)
  case Nil
  then show ?case by simp
next
  case (Cons b bs)
  show ?case
  proof (cases "low b < m")
    case True
    then have "correctLowLoop bs (low b) b = (m', cb')" using Cons.prems by simp
    then have "m' \<le> low b \<and> (\<forall>x \<in> set bs. m' \<le> low x)" using Cons.IH by blast
    then show ?thesis using True by auto
  next
    case False
    then have "correctLowLoop bs m cb = (m', cb')" using Cons.prems by simp
    then have "m' \<le> m \<and> (\<forall>x \<in> set bs. m' \<le> low x)" using Cons.IH by blast
    then show ?thesis using False by auto
  qed
qed

lemma correctLowLoop_bar:
  assumes "correctLowLoop bs m cb = (m', cb')" and "low cb = m"
  shows "low cb' = m' \<and> (cb' = cb \<or> cb' \<in> set bs)"
  using assms
proof (induction bs arbitrary: m cb)
  case Nil
  then show ?case by simp
next
  case (Cons b bs)
  show ?case
  proof (cases "low b < m")
    case True
    then have "correctLowLoop bs (low b) b = (m', cb')" using Cons.prems by simp
    then have "low cb' = m' \<and> (cb' = b \<or> cb' \<in> set bs)" using Cons.IH[of "low b" b] by simp
    then show ?thesis by auto
  next
    case False
    then have "correctLowLoop bs m cb = (m', cb')" using Cons.prems by simp
    then have "low cb' = m' \<and> (cb' = cb \<or> cb' \<in> set bs)" using Cons.IH Cons.prems(2) by blast
    then show ?thesis by auto
  qed
qed

lemma nth_in_drop: "k < length xs \<Longrightarrow> xs ! k \<in> set (drop k xs)"
  by (metis Cons_nth_drop_Suc list.set_intros(1))

lemma correctHigh_extreme:
  assumes "distinct (map date bars)" and "k < length bars"
  shows "\<exists>b \<in> set (drop k bars).
           correctHigh bars (highPivotAt (bars ! k))
             = \<lparr>pivot_date = date b, pivot_high = Some (high b), pivot_low = None\<rparr> \<and>
           high b = Max (high ` set (drop k bars))"
proof -
  obtain m' cb' where l:
    "correctHighLoop (drop k bars) (high (bars ! k)) (bars ! k) = (m', cb')"
    by (cases "correctHighLoop (drop k bars) (high (bars ! k)) (bars ! k)") simp
  have i: "findIndex (\<lambda>d. date d = date (bars ! k)) bars = Some k"
    using findIndex_distinct[OF assms] .
  have c: "correctHigh bars (highPivotAt (bars ! k))
             = \<lparr>pivot_date = date cb', pivot_high = Some m', pivot_low = None\<rparr>"
    using i l by (simp add: correctHigh_def highPivotAt_def)
  have bd: "\<forall>b \<in> set (drop k bars). high b \<le> m'"
    using correctHighLoop_bound[OF l] by blast
  have br: "high cb' = m' \<and> cb' \<in> set (drop k bars)"
    using correctHighLoop_bar[OF l] nth_in_drop[OF assms(2)] by auto
  have "Max (high ` set (drop k bars)) = m'"
    using bd br by (intro Max_eqI) auto
  then show ?thesis using c br by (intro bexI[of _ cb']) auto
qed

lemma correctLow_extreme:
  assumes "distinct (map date bars)" and "k < length bars"
  shows "\<exists>b \<in> set (drop k bars).
           correctLow bars (lowPivotAt (bars ! k))
             = \<lparr>pivot_date = date b, pivot_high = None, pivot_low = Some (low b)\<rparr> \<and>
           low b = Min (low ` set (drop k bars))"
proof -
  obtain m' cb' where l:
    "correctLowLoop (drop k bars) (low (bars ! k)) (bars ! k) = (m', cb')"
    by (cases "correctLowLoop (drop k bars) (low (bars ! k)) (bars ! k)") simp
  have i: "findIndex (\<lambda>d. date d = date (bars ! k)) bars = Some k"
    using findIndex_distinct[OF assms] .
  have c: "correctLow bars (lowPivotAt (bars ! k))
             = \<lparr>pivot_date = date cb', pivot_high = None, pivot_low = Some m'\<rparr>"
    using i l by (simp add: correctLow_def lowPivotAt_def)
  have bd: "\<forall>b \<in> set (drop k bars). m' \<le> low b"
    using correctLowLoop_bound[OF l] by blast
  have br: "low cb' = m' \<and> cb' \<in> set (drop k bars)"
    using correctLowLoop_bar[OF l] nth_in_drop[OF assms(2)] by auto
  have "Min (low ` set (drop k bars)) = m'"
    using bd br by (intro Min_eqI) auto
  then show ?thesis using c br by (intro bexI[of _ cb']) auto
qed

text \<open>
  C9: on a window whose bars have distinct dates (the bar series of the data model has no
  duplicate timestamp), when \<open>findInitialPivots\<close> returns a high pivot, there is a bar
  \<open>k\<close> of the window, not the first and not the last, that is a high fractal and is the
  initially located pivot bar, and the returned pivot has as price the maximum of the highs
  from bar \<open>k\<close> to the end of the window and as date the date of a bar of that range
  whose high is that maximum; so its price is at least the high of every bar of the range.
  The same holds for the low pivot with the minimum of the lows.
\<close>

theorem corrected_pivots:
  assumes "distinct (map date bars)"
  shows "(fst (findInitialPivots bars) = Some p \<longrightarrow>
            (\<exists>k. 1 \<le> k \<and> k + 1 < length bars \<and> isHighFractal bars k \<and>
                 fst (initialPivots bars) = Some (highPivotAt (bars ! k)) \<and>
                 pivot_high p = Some (Max (high ` set (drop k bars))) \<and>
                 (\<exists>b \<in> set (drop k bars). pivot_date p = date b \<and> pivot_high p = Some (high b)) \<and>
                 (\<forall>b \<in> set (drop k bars). high b \<le> the (pivot_high p)))) \<and>
         (snd (findInitialPivots bars) = Some q \<longrightarrow>
            (\<exists>k. 1 \<le> k \<and> k + 1 < length bars \<and> isLowFractal bars k \<and>
                 snd (initialPivots bars) = Some (lowPivotAt (bars ! k)) \<and>
                 pivot_low q = Some (Min (low ` set (drop k bars))) \<and>
                 (\<exists>b \<in> set (drop k bars). pivot_date q = date b \<and> pivot_low q = Some (low b)) \<and>
                 (\<forall>b \<in> set (drop k bars). the (pivot_low q) \<le> low b)))"
proof (intro conjI impI)
  assume a: "fst (findInitialPivots bars) = Some p"
  then have l: "\<not> length bars < 3" by (auto simp add: findInitialPivots_def split: if_splits)
  obtain ih il where ip: "initialPivots bars = (ih, il)" by (cases "initialPivots bars") simp
  then have "map_option (correctHigh bars) ih = Some p"
    using a l by (simp add: findInitialPivots_def)
  then obtain p0 where p0: "ih = Some p0" and cp: "correctHigh bars p0 = p" by auto
  then obtain k where k: "1 \<le> k" "k + 1 < length bars" "p0 = highPivotAt (bars ! k)"
      "isHighFractal bars k"
    using initialPivots_high[of bars p0] ip by auto
  then have kl: "k < length bars" by simp
  obtain b where b: "b \<in> set (drop k bars)"
      "p = \<lparr>pivot_date = date b, pivot_high = Some (high b), pivot_low = None\<rparr>"
      "high b = Max (high ` set (drop k bars))"
    using correctHigh_extreme[OF assms kl] cp k(3) by auto
  have "\<forall>x \<in> set (drop k bars). high x \<le> high b"
    using b(3) by simp
  then show "\<exists>k. 1 \<le> k \<and> k + 1 < length bars \<and> isHighFractal bars k \<and>
                 fst (initialPivots bars) = Some (highPivotAt (bars ! k)) \<and>
                 pivot_high p = Some (Max (high ` set (drop k bars))) \<and>
                 (\<exists>b \<in> set (drop k bars). pivot_date p = date b \<and> pivot_high p = Some (high b)) \<and>
                 (\<forall>b \<in> set (drop k bars). high b \<le> the (pivot_high p))"
    using k b ip p0 by (intro exI[of _ k]) auto
next
  assume a: "snd (findInitialPivots bars) = Some q"
  then have l: "\<not> length bars < 3" by (auto simp add: findInitialPivots_def split: if_splits)
  obtain ih il where ip: "initialPivots bars = (ih, il)" by (cases "initialPivots bars") simp
  then have "map_option (correctLow bars) il = Some q"
    using a l by (simp add: findInitialPivots_def)
  then obtain q0 where q0: "il = Some q0" and cq: "correctLow bars q0 = q" by auto
  then obtain k where k: "1 \<le> k" "k + 1 < length bars" "q0 = lowPivotAt (bars ! k)"
      "isLowFractal bars k"
    using initialPivots_low[of bars q0] ip by auto
  then have kl: "k < length bars" by simp
  obtain b where b: "b \<in> set (drop k bars)"
      "q = \<lparr>pivot_date = date b, pivot_high = None, pivot_low = Some (low b)\<rparr>"
      "low b = Min (low ` set (drop k bars))"
    using correctLow_extreme[OF assms kl] cq k(3) by auto
  have "\<forall>x \<in> set (drop k bars). low b \<le> low x"
    using b(3) by simp
  then show "\<exists>k. 1 \<le> k \<and> k + 1 < length bars \<and> isLowFractal bars k \<and>
                 snd (initialPivots bars) = Some (lowPivotAt (bars ! k)) \<and>
                 pivot_low q = Some (Min (low ` set (drop k bars))) \<and>
                 (\<exists>b \<in> set (drop k bars). pivot_date q = date b \<and> pivot_low q = Some (low b)) \<and>
                 (\<forall>b \<in> set (drop k bars). the (pivot_low q) \<le> low b)"
    using k b ip q0 by (intro exI[of _ k]) auto
qed

lemmas pivot_defs = findInitialPivots_def initialPivots_def correctHigh_def correctLow_def
  highPivotAt_def lowPivotAt_def orElse_def Let_def

lemma ex_window_pivots:
  "findInitialPivots ex_window =
     (Some \<lparr>pivot_date = 5, pivot_high = Some 13, pivot_low = None\<rparr>,
      Some \<lparr>pivot_date = 3, pivot_high = None, pivot_low = Some 7\<rparr>)"
  by (simp add: pivot_defs ex_window_def ex_bar_def upt_rec)

theorem corrected_pivots_witness:
  "distinct (map date ex_window) \<and>
   fst (findInitialPivots ex_window)
     = Some \<lparr>pivot_date = 5, pivot_high = Some 13, pivot_low = None\<rparr> \<and>
   snd (findInitialPivots ex_window)
     = Some \<lparr>pivot_date = 3, pivot_high = None, pivot_low = Some 7\<rparr> \<and>
   (\<exists>k. fst (initialPivots ex_window) = Some (highPivotAt (ex_window ! k)) \<and>
        Max (high ` set (drop k ex_window)) = 13)"
proof -
  have d: "distinct (map date ex_window)" by (simp add: ex_window_def ex_bar_def)
  show ?thesis
    using corrected_pivots[OF d, of "\<lparr>pivot_date = 5, pivot_high = Some 13, pivot_low = None\<rparr>"
            "\<lparr>pivot_date = 3, pivot_high = None, pivot_low = Some 7\<rparr>"]
          d ex_window_pivots
    by auto
qed

section \<open>The assembler\<close>

subsection \<open>A series without a low fractal\<close>

lemma ex_data_length: "length ex_data = 191"
  by (simp add: ex_data_def)

lemma ex_data_nth: "i < 191 \<Longrightarrow> ex_data ! i = ex_flat i"
  by (simp add: ex_data_def)

lemma ex_data_distinct: "distinct (map date ex_data)"
  by (simp add: ex_data_def ex_flat_def distinct_map inj_on_def)

lemma ex_data_low: "b \<in> set ex_data \<Longrightarrow> low b = 5"
  by (auto simp add: ex_data_def ex_flat_def)

lemma exitScan_no_low_fractal:
  assumes "\<forall>i \<in> set is. low (bars ! i) = low (bars ! (i - 1))"
  shows "exitScan bars LONG is = None"
  using assms by (induction "is") (simp_all add: Let_def)

lemma ex_data_no_exit_pivot: "findExitProjectionPivot (take 183 ex_data) LONG = None"
proof -
  have "\<forall>i \<in> set (rev [1 ..< length (take 183 ex_data) - 1]).
          low (take 183 ex_data ! i) = low (take 183 ex_data ! (i - 1))"
    by (auto simp add: ex_data_length ex_data_nth ex_flat_def)
  then show ?thesis
    using exitScan_no_low_fractal by (simp add: findExitProjectionPivot_def)
qed

lemma ex_data_drop: "drop k ex_data = map ex_flat [k ..< 191]"
  by (simp add: ex_data_def drop_map)

lemma ex_data_window: "take 3 (drop 180 ex_data) = [ex_flat 180, ex_flat 181, ex_flat 182]"
proof -
  have "take 3 (drop 180 ex_data) = map ex_flat [180 ..< 183]"
    by (simp add: ex_data_drop take_map)
  also have "[180 ..< 183] = [180, 181, 182::nat]"
    by (simp add: upt_rec)
  finally show ?thesis by simp
qed

lemma ex_data_scan_window:
  "drop 183 ex_data = [ex_flat 183, ex_flat 184, ex_flat 185, ex_flat 186, ex_flat 187,
                       ex_flat 188, ex_flat 189, ex_flat 190]"
proof -
  have "[183 ..< 191] = [183, 184, 185, 186, 187, 188, 189, 190::nat]"
    by (simp add: upt_rec)
  then show ?thesis by (simp add: ex_data_drop)
qed

lemma ex_data_trigger_index:
  "findIndex (\<lambda>d. date d = 183) ex_data = Some 183"
  using findIndex_distinct[OF ex_data_distinct, of 183]
  by (simp add: ex_data_length ex_data_nth ex_flat_def)

lemma ex_data_generate:
  "generateForLookback ex_name ex_data 180 2 = Some ex_unusable"
  by (simp add: generateForLookback_def ex_data_length ex_data_nth ex_data_window
        ex_data_scan_window pivot_defs findFutureSignals_def closedAbove_def closedBelow_def
        signalAt_def calculateAndSetExit_def ex_data_trigger_index ex_data_no_exit_pivot
        ex_flat_def ex_name_def ex_unusable_def upt_rec)


lemma Min_const_low:
  assumes "xs \<noteq> []" and "\<forall>b \<in> set xs. low b = c"
  shows "Min (set (map low xs)) = c"
proof -
  have "set (map low xs) = {c}" using assms by (cases xs) auto
  then show ?thesis by simp
qed

lemma findSharpPivots_iff:
  "d \<in> findSharpPivots data L \<longleftrightarrow>
     \<not> length data < L * 2 + 1 \<and>
     (\<exists>i. L \<le> i \<and> i < length data - L \<and> d = date (data ! i) \<and>
          (high (data ! i) = Max (set (map high (take (2 * L + 1) (drop (i - L) data)))) \<or>
           low (data ! i) = Min (set (map low (take (2 * L + 1) (drop (i - L) data))))))"
  by (auto simp add: findSharpPivots_def Let_def)

lemma ex_data_sharp:
  assumes "180 \<le> i" and "i < 191"
  shows "date (ex_data ! i) \<in> findSharpPivots ex_data PIVOT_LOOKAROUND \<longleftrightarrow> i = 180"
proof
  assume "date (ex_data ! i) \<in> findSharpPivots ex_data PIVOT_LOOKAROUND"
  then obtain j where j: "j < length ex_data - PIVOT_LOOKAROUND"
      and d: "date (ex_data ! i) = date (ex_data ! j)"
    unfolding findSharpPivots_iff by blast
  have "j < 181" using j by (simp add: ex_data_length PIVOT_LOOKAROUND_def)
  then have "date (ex_data ! j) = int j" by (simp add: ex_data_nth ex_flat_def)
  moreover have "date (ex_data ! i) = int i" using assms by (simp add: ex_data_nth ex_flat_def)
  ultimately show "i = 180" using d \<open>j < 181\<close> assms by simp
next
  assume i: "i = 180"
  have w: "take 21 (drop 170 ex_data) \<noteq> []"
    by (simp add: ex_data_drop)
  have "\<forall>b \<in> set (take 21 (drop 170 ex_data)). low b = 5"
    using ex_data_low by (meson in_set_dropD in_set_takeD)
  then have m: "Min (set (map low (take 21 (drop 170 ex_data)))) = 5"
    using Min_const_low[OF w] by blast
  have l: "low (ex_data ! 180) = 5"
    by (simp add: ex_data_nth ex_flat_def)
  have "\<not> length ex_data < 10 * 2 + 1 \<and> (10::nat) \<le> 180 \<and> 180 < length ex_data - 10 \<and>
        (2 * 10 + 1 = (21::nat)) \<and> (180 - 10 = (170::nat))"
    by (simp add: ex_data_length)
  then show "date (ex_data ! i) \<in> findSharpPivots ex_data PIVOT_LOOKAROUND"
    unfolding i findSharpPivots_iff PIVOT_LOOKAROUND_def
    using m l by (intro conjI exI[of _ 180]) simp_all
qed

lemma concat_map_Nil: "(\<forall>x \<in> set xs. f x = []) \<Longrightarrow> concat (map f xs) = []"
  by (induction xs) simp_all

lemma ex_data_generateSignals:
  "generateSignals ex_name ex_data 180 [2] = [ex_unusable]"
proof -
  have u: "[180 ..< length ex_data] = 180 # [181 ..< 191]"
    by (simp add: ex_data_length upt_conv_Cons)
  have r: "\<forall>i \<in> set [181 ..< 191].
             (if date (ex_data ! i) \<notin> findSharpPivots ex_data PIVOT_LOOKAROUND then []
              else List.map_filter (generateForLookback ex_name ex_data i) [2]) = []"
    using ex_data_sharp by auto
  have f: "date (ex_data ! 180) \<in> findSharpPivots ex_data PIVOT_LOOKAROUND"
    using ex_data_sharp[of 180] by simp
  show ?thesis
    unfolding generateSignals_def Let_def u
    using concat_map_Nil[OF r] f
    by (simp add: ex_data_generate List.map_filter_def)
qed

subsection \<open>Candidates without stop or projected exit are skipped by the simulator\<close>

lemma unusable_ghost:
  "unusable t \<Longrightarrow> getGhostTradeOutcome t h = None"
  by (auto simp add: unusable_def getGhostTradeOutcome_def Let_def)

lemma unusable_enter_candidate:
  "unusable t \<Longrightarrow> enter_candidate cfg h b t s = s"
  using unusable_ghost[of t h]
  by (auto simp add: unusable_def enter_candidate_def Let_def)

lemma unusable_enter_positions:
  "\<forall>t \<in> set ts. unusable t \<Longrightarrow> enter_positions cfg h b ts s = s"
  by (induction ts) (simp_all add: unusable_enter_candidate)

lemma close_positions_none:
  assumes "openPositions s = []"
  shows "close_positions cfg b s = s"
proof -
  have "s\<lparr>openPositions := []\<rparr> = s\<lparr>openPositions := openPositions s\<rparr>"
    using assms by simp
  then show ?thesis using assms by (simp add: close_positions_def)
qed

lemma unusable_process_bar:
  assumes "openPositions s = []" and "\<forall>t \<in> set (tradesAt sbe (date b)). unusable t"
  shows "process_bar cfg h sbe s b = s"
proof -
  have "\<forall>t \<in> set (signalsToProcess cfg sbe b). unusable t"
    using assms(2) by (auto simp add: signalsToProcess_tradesAt dest: in_set_takeD)
  then show ?thesis
    using close_positions_none[OF assms(1)] unusable_enter_positions
    by (simp add: process_bar_def)
qed

lemma unusable_foldl:
  assumes "openPositions s = []" and "\<forall>k. \<forall>t \<in> set (tradesAt sbe k). unusable t"
  shows "foldl (process_bar cfg h sbe) s bs = s"
  using assms by (induction bs) (simp_all add: unusable_process_bar)

lemma unusable_run_bars:
  assumes "\<forall>t \<in> set (keptTrades signals). unusable t"
  shows "run_bars cfg signals h bs = initial_state cfg"
proof -
  have "\<forall>k. \<forall>t \<in> set (tradesAt (groupSignalsByEntryBar signals) k). unusable t"
    using assms by (simp add: groupSignalsByEntryBar_lookup)
  then show ?thesis
    using unusable_foldl[of "initial_state cfg" "groupSignalsByEntryBar signals" cfg h bs]
    by (simp add: run_bars_def initial_state_def)
qed

lemma unusable_runBacktest:
  assumes "\<forall>t \<in> set (keptTrades signals). unusable t"
  shows "runBacktest signals h cfg = Some ([], summarize cfg [] (initialCapital cfg))"
  using unusable_run_bars[OF assms, of cfg h h]
  by (simp add: runBacktest_def end_of_test_def initial_state_def)

lemma generateForLookback_pushes:
  assumes "i + period < length pd"
  shows "\<exists>sd. generateForLookback nm pd i period = Some sd \<and>
              startDateUTC sd = date (pd ! i) \<and> lookbackPeriod sd = period \<and>
              longSignal sd = calculateAndSetExit pd
                (fst (findFutureSignals (drop (i + period + 1) pd)
                        (fst (findInitialPivots (take (period + 1) (drop i pd))))
                        (snd (findInitialPivots (take (period + 1) (drop i pd)))))) LONG"
  using assms
  by (simp add: generateForLookback_def Let_def split: prod.splits)

lemma calculateAndSetExit_no_pivot:
  assumes "findIndex (\<lambda>d. date d = triggerDate sg) pd = Some ti"
    and "findExitProjectionPivot (take ti pd) ty = None"
  shows "calculateAndSetExit pd (Some sg) ty = Some sg"
  using assms by (simp add: calculateAndSetExit_def)

text \<open>
  C1, as the code has it: the assembler discards no candidate. The body of its loop pushes
  a record for every start point and lookback period that fits in the data, and the long
  signal of the record is what \<open>calculateAndSetExit\<close> returns, which is the signal as
  it was, without projected exit and without exit pivot, when no exit pivot is found. The
  simulator receives such candidates and skips them itself: a candidate whose stop or
  projected exit is absent or 0 leaves the state of the simulator unchanged (no position,
  no trade record, no change of capital) and its ghost simulation has no outcome; a run
  whose candidates are all of this kind returns an empty trade log and the initial capital.
\<close>

theorem unusable_candidates:
  "(i + period < length pd \<longrightarrow>
      (\<exists>sd. generateForLookback nm pd i period = Some sd \<and>
            startDateUTC sd = date (pd ! i) \<and> lookbackPeriod sd = period \<and>
            longSignal sd = calculateAndSetExit pd
              (fst (findFutureSignals (drop (i + period + 1) pd)
                      (fst (findInitialPivots (take (period + 1) (drop i pd))))
                      (snd (findInitialPivots (take (period + 1) (drop i pd)))))) LONG)) \<and>
   (findIndex (\<lambda>d. date d = triggerDate sg) pd = Some ti \<longrightarrow>
      findExitProjectionPivot (take ti pd) ty = None \<longrightarrow>
      calculateAndSetExit pd (Some sg) ty = Some sg) \<and>
   (unusable t \<longrightarrow>
      enter_candidate cfg h b t s = s \<and> getGhostTradeOutcome t h = None) \<and>
   ((\<forall>u \<in> set (keptTrades signals). unusable u) \<longrightarrow>
      runBacktest signals h cfg = Some ([], summarize cfg [] (initialCapital cfg)))"
  using generateForLookback_pushes[of i period pd nm]
        calculateAndSetExit_no_pivot[of sg pd ti ty]
        unusable_enter_candidate[of t cfg h b s] unusable_ghost[of t h]
        unusable_runBacktest[of signals h cfg]
  by blast

lemma findIndex_first:
  assumes "i < length xs" and "P (xs ! i)" and "\<forall>j < i. \<not> P (xs ! j)"
  shows "findIndex P xs = Some i"
  using assms
proof (induction xs arbitrary: i)
  case Nil
  then show ?case by simp
next
  case (Cons x xs)
  show ?case
  proof (cases i)
    case 0
    then show ?thesis using Cons.prems by simp
  next
    case (Suc k)
    have "\<not> P x" using Cons.prems(3) Suc by force
    moreover have "findIndex P xs = Some k"
      using Cons.IH[of k] Cons.prems Suc by force
    ultimately show ?thesis using Suc by simp
  qed
qed

lemma ex_data_start_index: "findIndex (\<lambda>b. date b \<ge> 180) ex_data = Some 180"
  by (rule findIndex_first) (simp_all add: ex_data_length ex_data_nth ex_flat_def)

lemma ex_unusable_all:
  "\<forall>u \<in> set (keptTrades [ex_unusable]). unusable u"
  by (simp add: keptTrades_def toPotentialTrade_def keepTrade_def unusable_def stopLoss_of_def
        ex_unusable_def truthy_def)

lemma ex_unusable_kept:
  "keptTrades [ex_unusable]
     = [\<lparr>signalData = ex_unusable, tradeSignal = the (longSignal ex_unusable), isLong = True\<rparr>]"
  by (simp add: keptTrades_def toPotentialTrade_def keepTrade_def ex_unusable_def)

theorem unusable_candidates_witness:
  "generateForLookback ex_name ex_data 180 2 = Some ex_unusable \<and>
   calculateAndSetExit ex_data (longSignal ex_unusable) LONG = longSignal ex_unusable \<and>
   map unusable (keptTrades [ex_unusable]) = [True] \<and>
   enter_candidate ex_cfg_plain ex_data (ex_flat 184) (hd (keptTrades [ex_unusable]))
       (initial_state ex_cfg_plain) = initial_state ex_cfg_plain \<and>
   map_option fst (runBacktest [ex_unusable] ex_data ex_cfg_plain) = Some []"
proof -
  have a: "180 + 2 < length ex_data" by (simp add: ex_data_length)
  have u: "\<forall>u \<in> set (keptTrades [ex_unusable]). unusable u"
    by (rule ex_unusable_all)
  have m: "map unusable (keptTrades [ex_unusable]) = [True]"
    using u by (simp add: ex_unusable_kept)
  have h: "unusable (hd (keptTrades [ex_unusable]))"
    using u by (simp add: ex_unusable_kept)
  have l: "longSignal ex_unusable
             = Some \<lparr>triggerDate = 183, entryDate = Some 184, entryPrice = 8,
                     projectedExit = None, exitPivot = None\<rparr>"
    by (simp add: ex_unusable_def)
  have t: "findIndex (\<lambda>d. date d = triggerDate \<lparr>triggerDate = 183, entryDate = Some 184,
             entryPrice = 8, projectedExit = None, exitPivot = None\<rparr>) ex_data = Some 183"
    using ex_data_trigger_index by simp
  note th = unusable_candidates[where i = 180 and period = 2 and pd = ex_data and nm = ex_name
            and signals = "[ex_unusable]" and h = ex_data and cfg = ex_cfg_plain
            and sg = "\<lparr>triggerDate = 183, entryDate = Some 184, entryPrice = 8,
                       projectedExit = None, exitPivot = None\<rparr>"
            and ti = 183 and ty = LONG and t = "hd (keptTrades [ex_unusable])"
            and b = "ex_flat 184" and s = "initial_state ex_cfg_plain"]
  have c2: "calculateAndSetExit ex_data (longSignal ex_unusable) LONG = longSignal ex_unusable"
    unfolding l using th t ex_data_no_exit_pivot by blast
  have c4: "enter_candidate ex_cfg_plain ex_data (ex_flat 184) (hd (keptTrades [ex_unusable]))
              (initial_state ex_cfg_plain) = initial_state ex_cfg_plain"
    using th h by blast
  have "runBacktest [ex_unusable] ex_data ex_cfg_plain
          = Some ([], summarize ex_cfg_plain [] (initialCapital ex_cfg_plain))"
    using th u by blast
  then have c5: "map_option fst (runBacktest [ex_unusable] ex_data ex_cfg_plain) = Some []"
    by simp
  show ?thesis
    using ex_data_generate c2 m c4 c5 by blast
qed

text \<open>
  C1 as stated fails: on this series the assembler hands to the simulator one record,
  whose long signal has no projected exit and no exit pivot and whose low pivot (the stop)
  is absent; the simulation runs on it and logs no trade.
\<close>

theorem unusable_candidates_counterexample:
  "generateSignals ex_name ex_data 180 [2] = [ex_unusable] \<and>
   map stopLoss_of (keptTrades (generateSignals ex_name ex_data 180 [2])) = [None] \<and>
   map tradeSignal (keptTrades (generateSignals ex_name ex_data 180 [2]))
     = [\<lparr>triggerDate = 183, entryDate = Some 184, entryPrice = 8,
         projectedExit = None, exitPivot = None\<rparr>] \<and>
   POST ex_name ex_data 180 [2] ex_cfg_plain
     = Inr ([], summarize ex_cfg_plain [] (initialCapital ex_cfg_plain))"
proof -
  have u: "\<forall>u \<in> set (keptTrades [ex_unusable]). unusable u"
    by (rule ex_unusable_all)
  have k: "map stopLoss_of (keptTrades [ex_unusable]) = [None]"
    by (simp add: keptTrades_def toPotentialTrade_def keepTrade_def stopLoss_of_def
          ex_unusable_def)
  have t: "map tradeSignal (keptTrades [ex_unusable])
             = [\<lparr>triggerDate = 183, entryDate = Some 184, entryPrice = 8,
                 projectedExit = None, exitPivot = None\<rparr>]"
    by (simp add: keptTrades_def toPotentialTrade_def keepTrade_def ex_unusable_def)
  have p: "POST ex_name ex_data 180 [2] ex_cfg_plain
            = Inr ([], summarize ex_cfg_plain [] (initialCapital ex_cfg_plain))"
    using unusable_runBacktest[OF u, of ex_data ex_cfg_plain]
    by (simp add: POST_def ex_data_start_index LOOKBACK_FOR_START_POINT_def
          ex_data_generateSignals)
  show ?thesis using k t p by (simp add: ex_data_generateSignals)
qed

subsection \<open>The scaling factor\<close>

lemma trueRanges_nonneg: "\<forall>x \<in> set (trueRanges bars). 0 \<le> x"
proof -
  have "\<And>a b c :: real. 0 \<le> max a (max \<bar>b\<bar> \<bar>c\<bar>)"
    by (simp add: le_max_iff_disj)
  then show ?thesis
    unfolding trueRanges_def Let_def by (simp del: max.bounded_iff)
qed

lemma calculateATR_nonneg:
  assumes "calculateATR bars period = Some a"
  shows "0 \<le> a"
proof -
  have "\<forall>x \<in> set (sliceLast period (trueRanges bars)). 0 \<le> x"
    using trueRanges_nonneg by (auto simp add: sliceLast_def dest: in_set_dropD)
  then have "0 \<le> sum_list (sliceLast period (trueRanges bars))"
    by (simp add: sum_list_nonneg)
  then show ?thesis
    using assms by (auto simp add: calculateATR_def Let_def split: if_splits)
qed

lemma slopesOf_nonneg: "\<forall>x \<in> set (slopesOf ps). 0 \<le> x"
  by (induction ps rule: slopesOf.induct) auto

lemma calculateTrendStructureRatio_nonneg:
  assumes "calculateTrendStructureRatio bars numPivots pivotLookaround = Some a"
  shows "0 \<le> a"
proof -
  have "0 \<le> sum_list (slopesOf (sliceLast numPivots
                (trendPivots bars pivotLookaround pivotLookaround)))"
    using slopesOf_nonneg by (simp add: sum_list_nonneg)
  then show ?thesis
    using assms by (auto simp add: calculateTrendStructureRatio_def Let_def split: if_splits)
qed

lemma finalScalingFactor_cases:
  "(truthy tr \<and> truthy vr \<longrightarrow>
      finalScalingFactor tr vr = the tr * 0.6 + the vr * 0.4) \<and>
   (truthy tr \<and> \<not> truthy vr \<longrightarrow> finalScalingFactor tr vr = the tr) \<and>
   (\<not> truthy tr \<and> truthy vr \<longrightarrow> finalScalingFactor tr vr = the vr) \<and>
   (\<not> truthy tr \<and> \<not> truthy vr \<longrightarrow> finalScalingFactor tr vr = 1)"
  by (simp add: finalScalingFactor_def TREND_WEIGHT_def VOLATILITY_WEIGHT_def)

lemma finalScalingFactor_pos:
  assumes "\<And>a. tr = Some a \<Longrightarrow> 0 \<le> a" and "\<And>b. vr = Some b \<Longrightarrow> 0 \<le> b"
  shows "0 < finalScalingFactor tr vr"
proof (cases "truthy tr")
  case True
  then obtain a where a: "tr = Some a" "a \<noteq> 0" by (auto simp add: truthy_def split: option.splits)
  then have pa: "0 < a" using assms(1) by force
  show ?thesis
  proof (cases "truthy vr")
    case True
    then obtain b where b: "vr = Some b" "b \<noteq> 0"
      by (auto simp add: truthy_def split: option.splits)
    then have "0 < b" using assms(2) by force
    then show ?thesis
      using pa a b \<open>truthy tr\<close> \<open>truthy vr\<close>
      by (simp add: finalScalingFactor_def TREND_WEIGHT_def VOLATILITY_WEIGHT_def add_pos_pos)
  next
    case False
    then show ?thesis using pa a True by (simp add: finalScalingFactor_def)
  qed
next
  case False
  show ?thesis
  proof (cases "truthy vr")
    case True
    then obtain b where b: "vr = Some b" "b \<noteq> 0"
      by (auto simp add: truthy_def split: option.splits)
    then have "0 < b" using assms(2) by force
    then show ?thesis using b True False by (simp add: finalScalingFactor_def)
  next
    case f: False
    then show ?thesis using False by (simp add: finalScalingFactor_def)
  qed
qed

lemma calculateAndSetExit_sets:
  assumes "findIndex (\<lambda>d. date d = triggerDate sg) pd = Some ti" and "0 < ti"
    and "findExitProjectionPivot (take ti pd) ty = Some ep"
  shows "0 < finalScalingFactor
               (calculateTrendStructureRatio (drop (ti - 180) (take ti pd)) 4 10)
               (calculateATR (drop (ti - 180) (take ti pd)) 50) \<and>
         calculateAndSetExit pd (Some sg) ty =
           Some (sg\<lparr>projectedExit := projectionValue
                      (calculateProjectedExit (Some ty) (Some (close_price (pd ! ti))) (Some ep)
                         (Some (real_of_int (int ti -
                            (case findIndex (\<lambda>d. date d = pivot_date ep) pd of
                               None \<Rightarrow> - 1 | Some k \<Rightarrow> int k))))
                         (Some (finalScalingFactor
                            (calculateTrendStructureRatio (drop (ti - 180) (take ti pd)) 4 10)
                            (calculateATR (drop (ti - 180) (take ti pd)) 50)))),
                    exitPivot := Some ep\<rparr>)"
proof -
  have p: "0 < finalScalingFactor
               (calculateTrendStructureRatio (drop (ti - 180) (take ti pd)) 4 10)
               (calculateATR (drop (ti - 180) (take ti pd)) 50)"
    by (rule finalScalingFactor_pos)
       (erule calculateTrendStructureRatio_nonneg, erule calculateATR_nonneg)
  show ?thesis
    using assms p
    by (simp add: calculateAndSetExit_def Let_def SCALING_LOOKBACK_def SCALING_TREND_PIVOTS_def
          SCALING_ATR_PERIOD_def)
qed

text \<open>
  C2, as the code has it: in the assembler the scaling factor is
  \<open>trendRatio * 0.6 + volatilityRatio * 0.4\<close> when both ratios are present and not 0,
  it is the one that is present and not 0 when only one is, and it is the constant 1 when
  neither is. Whenever the trigger bar is found after the first bar and an exit pivot is
  found before it, that factor is positive and the projected exit is computed with it by
  \<open>calculateProjectedExit\<close> from the close of the trigger bar, the exit pivot and the
  number of bars between them.
\<close>

theorem scaling_factor:
  "(truthy tr \<and> truthy vr \<longrightarrow>
      finalScalingFactor tr vr = the tr * 0.6 + the vr * 0.4) \<and>
   (truthy tr \<and> \<not> truthy vr \<longrightarrow> finalScalingFactor tr vr = the tr) \<and>
   (\<not> truthy tr \<and> truthy vr \<longrightarrow> finalScalingFactor tr vr = the vr) \<and>
   (\<not> truthy tr \<and> \<not> truthy vr \<longrightarrow> finalScalingFactor tr vr = 1) \<and>
   (findIndex (\<lambda>d. date d = triggerDate sg) pd = Some ti \<longrightarrow> 0 < ti \<longrightarrow>
    findExitProjectionPivot (take ti pd) ty = Some ep \<longrightarrow>
      0 < finalScalingFactor
            (calculateTrendStructureRatio (drop (ti - 180) (take ti pd)) 4 10)
            (calculateATR (drop (ti - 180) (take ti pd)) 50) \<and>
      calculateAndSetExit pd (Some sg) ty =
        Some (sg\<lparr>projectedExit := projectionValue
                   (calculateProjectedExit (Some ty) (Some (close_price (pd ! ti))) (Some ep)
                      (Some (real_of_int (int ti -
                         (case findIndex (\<lambda>d. date d = pivot_date ep) pd of
                            None \<Rightarrow> - 1 | Some k \<Rightarrow> int k))))
                      (Some (finalScalingFactor
                         (calculateTrendStructureRatio (drop (ti - 180) (take ti pd)) 4 10)
                         (calculateATR (drop (ti - 180) (take ti pd)) 50)))),
                 exitPivot := Some ep\<rparr>))"
  using finalScalingFactor_cases[of tr vr] calculateAndSetExit_sets[of sg pd ti ty ep]
  by blast

lemma sqrt_25_4: "sqrt (4 + (3 / 2)\<^sup>2) = 5 / 2"
proof -
  have "4 + (3 / 2)\<^sup>2 = ((5 / 2)\<^sup>2 :: real)" by (simp add: power2_eq_square)
  then show ?thesis using real_sqrt_abs[of "5 / 2"] by simp
qed

lemma ex_short_history_index:
  "findIndex (\<lambda>d. date d = triggerDate ex_trigger_signal) ex_short_history = Some 3"
  by (simp add: ex_short_history_def ex_trigger_signal_def ex_bar_def)

lemma ex_short_history_pivot:
  "findExitProjectionPivot (take 3 ex_short_history) LONG
     = Some \<lparr>pivot_date = 2, pivot_high = None, pivot_low = Some 7\<rparr>"
  by (simp add: findExitProjectionPivot_def ex_short_history_def ex_bar_def lowPivotAt_def
        upt_rec Let_def)

lemma ex_short_history_ratios:
  "calculateTrendStructureRatio (drop (3 - 180) (take 3 ex_short_history)) 4 10 = None \<and>
   calculateATR (drop (3 - 180) (take 3 ex_short_history)) 50 = None"
  by (simp add: calculateTrendStructureRatio_def calculateATR_def ex_short_history_def)

theorem scaling_factor_witness:
  "finalScalingFactor (Some 2) (Some 1) = 8 / 5 \<and>
   finalScalingFactor (Some 2) (Some 0) = 2 \<and>
   finalScalingFactor None (Some 3) = 3 \<and>
   map_option projectedExit
     (calculateAndSetExit ex_short_history (Some ex_trigger_signal) LONG) = Some (Some 11)"
proof -
  note th = scaling_factor[where sg = ex_trigger_signal and pd = ex_short_history and ti = 3
      and ty = LONG and ep = "\<lparr>pivot_date = 2, pivot_high = None, pivot_low = Some 7\<rparr>"]
  have z: "(0::nat) < 3" by simp
  have a: "finalScalingFactor (Some 2) (Some 1) = 8 / 5"
    using th[of "Some 2" "Some 1"] by (simp add: truthy_def)
  have b: "finalScalingFactor (Some 2) (Some 0) = 2"
    using th[of "Some 2" "Some 0"] by (simp add: truthy_def)
  have c: "finalScalingFactor None (Some 3) = 3"
    using th[of None "Some 3"] by (simp add: truthy_def)
  have "calculateAndSetExit ex_short_history (Some ex_trigger_signal) LONG =
        Some (ex_trigger_signal\<lparr>projectedExit := projectionValue
                   (calculateProjectedExit (Some LONG)
                      (Some (close_price (ex_short_history ! 3)))
                      (Some \<lparr>pivot_date = 2, pivot_high = None, pivot_low = Some 7\<rparr>)
                      (Some (real_of_int (int 3 -
                         (case findIndex (\<lambda>d. date d = pivot_date
                                 \<lparr>pivot_date = 2, pivot_high = None, pivot_low = Some 7\<rparr>)
                               ex_short_history of
                            None \<Rightarrow> - 1 | Some k \<Rightarrow> int k))))
                      (Some (finalScalingFactor
                         (calculateTrendStructureRatio
                            (drop (3 - 180) (take 3 ex_short_history)) 4 10)
                         (calculateATR (drop (3 - 180) (take 3 ex_short_history)) 50)))),
                 exitPivot := Some \<lparr>pivot_date = 2, pivot_high = None, pivot_low = Some 7\<rparr>\<rparr>)"
    using th[of None None, THEN conjunct2, THEN conjunct2, THEN conjunct2, THEN conjunct2,
             rule_format, OF ex_short_history_index z ex_short_history_pivot]
    by (rule conjunct2)
  then have d: "map_option projectedExit
     (calculateAndSetExit ex_short_history (Some ex_trigger_signal) LONG) = Some (Some 11)"
    using ex_short_history_ratios sqrt_25_4
    by (simp add: finalScalingFactor_def truthy_def calculateProjectedExit_def
          projectionValue_def ex_short_history_def ex_bar_def)
  show ?thesis using a b c d by blast
qed

subsection \<open>A series that stands still before the trigger\<close>

lemma ex_calm_length: "length ex_calm_data = 367"
  by (simp add: ex_calm_data_def)

lemma ex_calm_nth: "i < 367 \<Longrightarrow> ex_calm_data ! i = ex_calm i"
  by (simp add: ex_calm_data_def)

lemma ex_calm_distinct: "distinct (map date ex_calm_data)"
  by (simp add: ex_calm_data_def ex_calm_def distinct_map inj_on_def)

lemma ex_calm_drop: "drop k ex_calm_data = map ex_calm [k ..< 367]"
  by (simp add: ex_calm_data_def drop_map)

lemma ex_calm_take: "k \<le> 367 \<Longrightarrow> take k ex_calm_data = map ex_calm [0 ..< k]"
  by (simp add: ex_calm_data_def take_map)

lemma ex_calm_window:
  "take 3 (drop 180 ex_calm_data) = [ex_calm 180, ex_calm 181, ex_calm 182]"
proof -
  have "take 3 (drop 180 ex_calm_data) = map ex_calm [180 ..< 183]"
    by (simp add: ex_calm_drop take_map)
  also have "[180 ..< 183] = [180, 181, 182::nat]"
    by (simp add: upt_rec)
  finally show ?thesis by simp
qed

lemma ex_calm_pivots:
  "findInitialPivots [ex_calm 180, ex_calm 181, ex_calm 182]
     = (Some \<lparr>pivot_date = 181, pivot_high = Some 12, pivot_low = None\<rparr>, None)"
  by (simp add: pivot_defs ex_calm_def upt_rec)

text \<open>The scan for signals passes over the bars that do not close beyond a pivot.\<close>

lemma signalScan_skip:
  assumes "\<forall>b \<in> set pre. \<not> closedAbove b fh \<and> \<not> closedBelow b fl" and "rest \<noteq> []"
  shows "signalScan (pre @ rest) fh fl None None = signalScan rest fh fl None None"
  using assms
proof (induction pre)
  case Nil
  show ?case by simp
next
  case (Cons b pre)
  obtain c cs where c: "pre @ rest = c # cs"
    using Cons.prems(2) by (cases "pre @ rest") simp_all
  have "signalScan ((b # pre) @ rest) fh fl None None = signalScan (pre @ rest) fh fl None None"
    using Cons.prems(1) c by simp
  then show ?case using Cons by simp
qed

lemma ex_calm_signals:
  "findFutureSignals (drop 183 ex_calm_data)
       (Some \<lparr>pivot_date = 181, pivot_high = Some 12, pivot_low = None\<rparr>) None
     = (Some \<lparr>triggerDate = 365, entryDate = Some 366, entryPrice = 10,
              projectedExit = None, exitPivot = None\<rparr>, None)"
proof -
  have a: "[183 ..< 365 + 2] = [183 ..< 365] @ [365 ..< 365 + 2]"
    by (rule upt_add_eq_append) simp
  have b: "[365 ..< 365 + 2] = [365, 366::nat]"
    by (simp add: upt_rec)
  have "[183 ..< 367] = [183 ..< 365] @ [365, 366::nat]"
    using a b by (simp del: upt_rec_numeral)
  then have s: "drop 183 ex_calm_data = map ex_calm [183 ..< 365] @ [ex_calm 365, ex_calm 366]"
    by (simp add: ex_calm_drop del: upt_rec_numeral)
  have q: "\<forall>b \<in> set (map ex_calm [183 ..< 365]).
             \<not> closedAbove b (Some \<lparr>pivot_date = 181, pivot_high = Some 12, pivot_low = None\<rparr>)
             \<and> \<not> closedBelow b None"
  proof
    fix b
    assume "b \<in> set (map ex_calm [183 ..< 365])"
    then obtain i where i: "b = ex_calm i" "i < 365"
      by (auto simp del: upt_rec_numeral)
    then have "close_price b = 10" by (simp add: ex_calm_def)
    then show "\<not> closedAbove b
                   (Some \<lparr>pivot_date = 181, pivot_high = Some 12, pivot_low = None\<rparr>)
               \<and> \<not> closedBelow b None"
      by (simp add: closedAbove_def closedBelow_def)
  qed
  have "signalScan (map ex_calm [183 ..< 365] @ [ex_calm 365, ex_calm 366])
          (Some \<lparr>pivot_date = 181, pivot_high = Some 12, pivot_low = None\<rparr>) None None None
        = signalScan [ex_calm 365, ex_calm 366]
          (Some \<lparr>pivot_date = 181, pivot_high = Some 12, pivot_low = None\<rparr>) None None None"
    by (rule signalScan_skip[OF q]) simp
  moreover have "length (drop 183 ex_calm_data) = 184"
    by (simp add: ex_calm_length)
  ultimately show ?thesis
    unfolding findFutureSignals_def s
    by (simp add: closedAbove_def closedBelow_def signalAt_def ex_calm_def
          del: upt_rec_numeral)
qed

text \<open>The scan for the exit pivot passes over the bars that are not low fractals.\<close>

lemma exitScan_skip:
  assumes "\<forall>i \<in> set is. low (bars ! i) = low (bars ! (i - 1))"
  shows "exitScan bars LONG (is @ js) = exitScan bars LONG js"
  using assms by (induction "is") (simp_all add: Let_def)

lemma ex_calm_exit_pivot:
  "findExitProjectionPivot (take 365 ex_calm_data) LONG
     = Some \<lparr>pivot_date = 1, pivot_high = None, pivot_low = Some 9\<rparr>"
proof -
  have a: "[1 ..< 3 + 361] = [1 ..< 3] @ [3 ..< 3 + 361]"
    by (rule upt_add_eq_append) simp
  have b: "[1 ..< 3] = [1, 2::nat]"
    by (simp add: upt_rec)
  have "[1 ..< 364] = [1, 2] @ [3 ..< 364]"
    using a b by (simp del: upt_rec_numeral)
  then have r: "rev [1 ..< length (take 365 ex_calm_data) - 1] = rev [3 ..< 364] @ [2, 1]"
    by (simp add: ex_calm_length del: upt_rec_numeral)
  have n: "\<And>i. i < 365 \<Longrightarrow> take 365 ex_calm_data ! i = ex_calm i"
    by (simp add: ex_calm_nth)
  have q: "\<forall>i \<in> set (rev [3 ..< 364]).
             low (take 365 ex_calm_data ! i) = low (take 365 ex_calm_data ! (i - 1))"
  proof
    fix i
    assume "i \<in> set (rev [3 ..< 364])"
    then have i: "3 \<le> i" "i < 364" by (simp_all del: upt_rec_numeral)
    then have "low (ex_calm i) = 10" and "low (ex_calm (i - 1)) = 10"
      by (simp_all add: ex_calm_def)
    then show "low (take 365 ex_calm_data ! i) = low (take 365 ex_calm_data ! (i - 1))"
      using i by (simp add: ex_calm_nth)
  qed
  have e: "exitScan (take 365 ex_calm_data) LONG (rev [3 ..< 364] @ [2, 1])
          = exitScan (take 365 ex_calm_data) LONG [2, 1]"
    using exitScan_skip[OF q] .
  have "exitScan (take 365 ex_calm_data) LONG [2, 1]
          = Some \<lparr>pivot_date = 1, pivot_high = None, pivot_low = Some 9\<rparr>"
    by (simp add: ex_calm_nth ex_calm_def lowPivotAt_def Let_def)
  then show ?thesis
    unfolding findExitProjectionPivot_def r e by (simp add: ex_calm_length)
qed


text \<open>On bars that stand still the average true range is 0.\<close>

lemma sum_list_zeros: "\<forall>x \<in> set xs. x = (0::real) \<Longrightarrow> sum_list xs = 0"
  by (induction xs) simp_all

lemma calculateAndSetExit_None: "calculateAndSetExit pd None ty = None"
  by (simp add: calculateAndSetExit_def)

lemma calculateATR_still:
  assumes "\<forall>b \<in> set bars. high b = c \<and> low b = c \<and> close_price b = c"
    and "period < length bars" and "0 < period"
  shows "calculateATR bars period = Some 0"
proof -
  have t: "\<forall>x \<in> set (trueRanges bars). x = 0"
  proof
    fix x
    assume "x \<in> set (trueRanges bars)"
    then have "x \<in> (\<lambda>i. max (high (bars ! i) - low (bars ! i))
                     (max \<bar>high (bars ! i) - close_price (bars ! (i - 1))\<bar>
                          \<bar>low (bars ! i) - close_price (bars ! (i - 1))\<bar>))
                 ` set [1 ..< length bars]"
      unfolding trueRanges_def Let_def by (simp only: set_map)
    then obtain i where m: "i \<in> set [1 ..< length bars]"
        and x: "x = max (high (bars ! i) - low (bars ! i))
                     (max \<bar>high (bars ! i) - close_price (bars ! (i - 1))\<bar>
                          \<bar>low (bars ! i) - close_price (bars ! (i - 1))\<bar>)"
      by blast
    have i: "1 \<le> i" "i < length bars"
      using m by simp_all
    have "bars ! i \<in> set bars" and "bars ! (i - 1) \<in> set bars"
      using i by simp_all
    then have "high (bars ! i) = c" "low (bars ! i) = c" "close_price (bars ! (i - 1)) = c"
      using assms(1) by blast+
    then show "x = 0" using x by simp
  qed
  have l: "length (trueRanges bars) = length bars - 1"
    by (simp add: trueRanges_def)
  have "\<forall>x \<in> set (sliceLast period (trueRanges bars)). x = 0"
    using t by (auto simp add: sliceLast_def dest: in_set_dropD)
  then have z: "sum_list (sliceLast period (trueRanges bars)) = 0"
    by (rule sum_list_zeros)
  have "length (sliceLast period (trueRanges bars)) = period"
    using assms(2,3) l by (simp add: sliceLast_def)
  then show ?thesis
    using assms(2) z by (simp add: calculateATR_def Let_def)
qed

text \<open>On bars with the same high every bar that is looked at is a high pivot.\<close>

lemma trendPivots_still:
  assumes "\<forall>b \<in> set bars. high b = c"
  shows "trendPivots bars L i =
           (if i + L < length bars
            then \<lparr>tp_index = i, tp_price = c, tp_type = ''High''\<rparr>
                   # trendPivots bars L (i + L + 1)
            else [])"
proof (cases "i + L < length bars")
  case False
  then show ?thesis by (simp add: trendPivots.simps)
next
  case True
  then have n: "take (2 * L + 1) (drop (i - L) bars) \<noteq> []" by simp
  have "\<forall>b \<in> set (take (2 * L + 1) (drop (i - L) bars)). high b = c"
    using assms by (meson in_set_dropD in_set_takeD)
  then have "set (map high (take (2 * L + 1) (drop (i - L) bars))) = {c}"
    using n by (cases "take (2 * L + 1) (drop (i - L) bars)") auto
  then have m: "Max (set (map high (take (2 * L + 1) (drop (i - L) bars)))) = c"
    by simp
  have "bars ! i \<in> set bars" using True by simp
  then have h: "high (bars ! i) = c" using assms by blast
  show ?thesis
    using True m h by (subst trendPivots.simps) (simp add: Let_def)
qed

lemma ex_calm_history:
  "length (drop 185 (take 365 ex_calm_data)) = 180 \<and>
   (\<forall>b \<in> set (drop 185 (take 365 ex_calm_data)).
      high b = 10 \<and> low b = 10 \<and> close_price b = 10)"
proof -
  have "drop 185 (take 365 ex_calm_data) = map ex_calm [185 ..< 365]"
    by (simp add: ex_calm_take drop_map del: upt_rec_numeral)
  moreover have "\<forall>i \<in> set [185 ..< 365].
      high (ex_calm i) = 10 \<and> low (ex_calm i) = 10 \<and> close_price (ex_calm i) = 10"
  proof
    fix i
    assume "i \<in> set [185 ..< 365]"
    then have "185 \<le> i" "i < 365" by (simp_all del: upt_rec_numeral)
    then show "high (ex_calm i) = 10 \<and> low (ex_calm i) = 10 \<and> close_price (ex_calm i) = 10"
      by (simp add: ex_calm_def)
  qed
  ultimately show ?thesis by (simp del: upt_rec_numeral)
qed

lemma ex_calm_atr: "calculateATR (drop 185 (take 365 ex_calm_data)) 50 = Some 0"
  using ex_calm_history by (intro calculateATR_still[of _ 10]) simp_all

lemma ex_calm_trend:
  "calculateTrendStructureRatio (drop 185 (take 365 ex_calm_data)) 4 10 = Some 0"
proof -
  have h: "\<forall>b \<in> set (drop 185 (take 365 ex_calm_data)). high b = 10"
    using ex_calm_history by blast
  have l: "length (drop 185 (take 365 ex_calm_data)) = 180"
    using ex_calm_history by blast
  note step = trendPivots_still[OF h, of 10, unfolded l]
  have "trendPivots (drop 185 (take 365 ex_calm_data)) 10 10
          = map (\<lambda>i. \<lparr>tp_index = i, tp_price = 10, tp_type = ''High''\<rparr>)
              [10, 21, 32, 43, 54, 65, 76, 87, 98, 109, 120, 131, 142, 153, 164]"
    by (simp add: step)
  then show ?thesis
    by (simp add: calculateTrendStructureRatio_def ex_calm_length sliceLast_def Let_def)
qed

lemma sqrt_365: "sqrt ((364::real)\<^sup>2 + 27\<^sup>2) = 365"
proof -
  have "(364::real)\<^sup>2 + 27\<^sup>2 = 365\<^sup>2" by (simp add: power2_eq_square)
  then show ?thesis using real_sqrt_abs[of 365] by simp
qed

lemma ex_calm_exit:
  "calculateAndSetExit ex_calm_data
     (Some \<lparr>triggerDate = 365, entryDate = Some 366, entryPrice = 10,
            projectedExit = None, exitPivot = None\<rparr>) LONG
   = Some \<lparr>triggerDate = 365, entryDate = Some 366, entryPrice = 10,
           projectedExit = Some 401,
           exitPivot = Some \<lparr>pivot_date = 1, pivot_high = None, pivot_low = Some 9\<rparr>\<rparr>"
proof -
  have t: "findIndex (\<lambda>d. date d = 365) ex_calm_data = Some 365"
    using findIndex_distinct[OF ex_calm_distinct, of 365]
    by (simp add: ex_calm_length ex_calm_nth ex_calm_def)
  have p: "findIndex (\<lambda>d. date d = 1) ex_calm_data = Some 1"
    using findIndex_distinct[OF ex_calm_distinct, of 1]
    by (simp add: ex_calm_length ex_calm_nth ex_calm_def)
  have c: "close_price (ex_calm_data ! 365) = 36"
    by (simp add: ex_calm_nth ex_calm_def)
  have r: "calculateProjectedExit (Some LONG) (Some 36)
             (Some \<lparr>pivot_date = 1, pivot_high = None, pivot_low = Some 9\<rparr>) (Some 364) (Some 1)
           = Price 401"
    using sqrt_365 by (simp add: calculateProjectedExit_def truthy_def)
  show ?thesis
    by (simp add: calculateAndSetExit_def t p c r ex_calm_exit_pivot ex_calm_trend ex_calm_atr
          finalScalingFactor_def truthy_def projectionValue_def SCALING_LOOKBACK_def
          SCALING_TREND_PIVOTS_def SCALING_ATR_PERIOD_def)
qed

lemma ex_calm_generate:
  "generateForLookback ex_name ex_calm_data 180 2 = Some ex_calm_record"
  by (simp add: generateForLookback_def ex_calm_length ex_calm_nth ex_calm_window
        ex_calm_pivots ex_calm_signals ex_calm_exit calculateAndSetExit_None
        ex_name_def ex_calm_record_def)
     (simp add: ex_calm_def)

lemma generateSignals_member:
  assumes "start \<le> i" and "i < length pd"
    and "date (pd ! i) \<in> findSharpPivots pd PIVOT_LOOKAROUND"
    and "p \<in> set periods" and "generateForLookback nm pd i p = Some sd"
  shows "sd \<in> set (generateSignals nm pd start periods)"
proof -
  have "sd \<in> set (List.map_filter (generateForLookback nm pd i) periods)"
    using assms(4,5) by (force simp add: List.map_filter_def)
  then show ?thesis
    using assms(1,2,3) by (auto simp add: generateSignals_def Let_def intro!: bexI[of _ i])
qed

lemma ex_calm_sharp:
  "date (ex_calm_data ! 180) \<in> findSharpPivots ex_calm_data PIVOT_LOOKAROUND"
proof -
  have w: "take 21 (drop 170 ex_calm_data) = map ex_calm [170 ..< 191]"
    by (simp add: ex_calm_drop take_map del: upt_rec_numeral)
  have "\<forall>b \<in> set (map ex_calm [170 ..< 191]). low b = 10"
  proof
    fix b
    assume "b \<in> set (map ex_calm [170 ..< 191])"
    then obtain i where "b = ex_calm i" "170 \<le> i" by (auto simp del: upt_rec_numeral)
    then show "low b = 10" by (simp add: ex_calm_def)
  qed
  moreover have "map ex_calm [170 ..< 191] \<noteq> []" by (simp del: upt_rec_numeral)
  ultimately have m: "Min (set (map low (take 21 (drop 170 ex_calm_data)))) = 10"
    unfolding w by (rule Min_const_low[rotated])
  have l: "low (ex_calm_data ! 180) = 10"
    by (simp add: ex_calm_nth ex_calm_def)
  have "\<not> length ex_calm_data < 10 * 2 + 1 \<and> (10::nat) \<le> 180 \<and>
        180 < length ex_calm_data - 10 \<and> (2 * 10 + 1 = (21::nat)) \<and> (180 - 10 = (170::nat))"
    by (simp add: ex_calm_length)
  then show ?thesis
    unfolding findSharpPivots_iff PIVOT_LOOKAROUND_def
    using m l by (intro conjI exI[of _ 180]) simp_all
qed

lemma ex_calm_member:
  "ex_calm_record \<in> set (generateSignals ex_name ex_calm_data 180 [2])"
  by (rule generateSignals_member[OF _ _ ex_calm_sharp _ ex_calm_generate])
     (simp_all add: ex_calm_length)

text \<open>
  C2 as stated fails. On the series that stands still for the 180 bars before the trigger,
  which the route accepts (bar 180 is a start point of the main loop), both ratios exist
  and are 0; the scaling factor is not \<open>0 * 0.6 + 0 * 0.4\<close> but the constant 1, and the
  projected exit 401 is computed with it (36 plus the radius
  \<open>sqrt (364^2 + 27^2) = 365\<close>). On the history of three bars neither ratio exists, the
  scaling factor is again the constant 1, and the projected exit 11 is computed with it
  (8.5 plus the radius \<open>sqrt (2^2 + 1.5^2) = 2.5\<close>).
\<close>

theorem scaling_factor_counterexample:
  "calculateTrendStructureRatio (drop (365 - 180) (take 365 ex_calm_data)) 4 10 = Some 0 \<and>
   calculateATR (drop (365 - 180) (take 365 ex_calm_data)) 50 = Some 0 \<and>
   finalScalingFactor (Some 0) (Some 0) = 1 \<and>
   ex_calm_record \<in> set (generateSignals ex_name ex_calm_data 180 [2]) \<and>
   Option.bind (longSignal ex_calm_record) projectedExit = Some 401 \<and>
   calculateTrendStructureRatio (drop (3 - 180) (take 3 ex_short_history)) 4 10 = None \<and>
   calculateATR (drop (3 - 180) (take 3 ex_short_history)) 50 = None \<and>
   finalScalingFactor None None = 1 \<and>
   calculateAndSetExit ex_short_history (Some ex_trigger_signal) LONG
     = Some (ex_trigger_signal
              \<lparr>projectedExit := Some 11,
               exitPivot := Some \<lparr>pivot_date = 2, pivot_high = None, pivot_low = Some 7\<rparr>\<rparr>)"
proof -
  have a: "calculateAndSetExit ex_short_history (Some ex_trigger_signal) LONG
     = Some (ex_trigger_signal
              \<lparr>projectedExit := Some 11,
               exitPivot := Some \<lparr>pivot_date = 2, pivot_high = None, pivot_low = Some 7\<rparr>\<rparr>)"
    using ex_short_history_ratios sqrt_25_4
    by (simp add: calculateAndSetExit_def ex_short_history_index ex_short_history_pivot
          finalScalingFactor_def truthy_def Let_def SCALING_LOOKBACK_def SCALING_TREND_PIVOTS_def
          SCALING_ATR_PERIOD_def calculateProjectedExit_def projectionValue_def)
       (simp add: ex_short_history_def ex_bar_def)
  have b: "finalScalingFactor (Some 0) (Some 0) = 1 \<and> finalScalingFactor None None = 1"
    by (simp add: finalScalingFactor_def truthy_def)
  have c: "Option.bind (longSignal ex_calm_record) projectedExit = Some 401"
    by (simp add: ex_calm_record_def)
  have d: "(365::nat) - 180 = 185" by simp
  show ?thesis
    unfolding d
    using a b c ex_calm_trend ex_calm_atr ex_calm_member ex_short_history_ratios
    by blast
qed

end
